theory Spec2Isabelle
  imports Complex_Main "HOL-Library.Multiset" "HOL-Library.AList"
begin

section \<open>The Go runtime the analyzers rest on\<close>

text \<open>
  The analyzers of \<^verbatim>\<open>internal/analyzer\<close> and the client of \<^verbatim>\<open>internal/etherscan\<close>
  call into Go's standard library: \<^verbatim>\<open>strings.EqualFold\<close>, \<^verbatim>\<open>strconv.ParseInt\<close>,
  \<^verbatim>\<open>time.Unix(..).Format(..)\<close>, \<^verbatim>\<open>math/big.Float\<close> and the \<^verbatim>\<open>float64\<close> addition.
  This section models those, each to the extent the code uses it. Where a library function
  is modelled on a fragment of its inputs only, its behaviour outside the fragment is a
  field of the record \<open>runtime\<close> below, so every theorem holds whatever the library does
  there.
\<close>

subsection \<open>float64\<close>

text \<open>
  An IEEE 754 binary64 value. \<open>Finite s m e\<close> is \<open>(-1)^s * m * 2^e\<close> in the format's own
  normal form: \<open>m < 2^53\<close>, \<open>-1074 \<le> e \<le> 971\<close>, and \<open>2^52 \<le> m\<close> unless \<open>e = -1074\<close>
  (zero and the subnormal numbers). So \<open>1.0\<close> is \<open>Finite False (2^52) (-52)\<close>.
\<close>

datatype float64 = Finite bool nat int | Infinite bool | NaN

definition float64_zero :: float64 where
  "float64_zero = Finite False 0 (- 1074)"

definition float64_one :: float64 where
  "float64_one = Finite False (2 ^ 52) (- 52)"

definition float64_half :: float64 where
  "float64_half = Finite False (2 ^ 52) (- 53)"

text \<open>The exact value of a finite float64 (0 for the others, which no statement reads).\<close>

fun valof :: "float64 \<Rightarrow> rat" where
  "valof (Finite s m e) =
     (if s then - 1 else 1) * of_nat m * (if 0 \<le> e then 2 ^ nat e else 1 / 2 ^ nat (- e))"
| "valof (Infinite s) = 0"
| "valof NaN = 0"


text \<open>The number of bits of a natural number: \<open>bit_length n = k\<close> iff \<open>2^(k-1) \<le> n < 2^k\<close>.\<close>

fun bit_length :: "nat \<Rightarrow> nat" where
  "bit_length n = (if n = 0 then 0 else Suc (bit_length (n div 2)))"

declare bit_length.simps [simp del]

text \<open>\<open>\<lfloor>log\<^sub>2 (n / d)\<rfloor>\<close> for positive \<open>n\<close> and \<open>d\<close>: the quotient lies strictly between
  \<open>2^(k - 1)\<close> and \<open>2^(k + 1)\<close> for \<open>k\<close> the difference of the bit lengths, so the
  logarithm is \<open>k\<close> when \<open>2^k \<le> n / d\<close> and \<open>k - 1\<close> otherwise.\<close>

definition floor_log2_near :: "int \<Rightarrow> nat \<Rightarrow> nat \<Rightarrow> int" where
  "floor_log2_near k n d = (if d * 2 ^ nat k \<le> n * 2 ^ nat (- k) then k else k - 1)"

definition floor_log2 :: "nat \<Rightarrow> nat \<Rightarrow> int" where
  "floor_log2 n d = floor_log2_near (int (bit_length n) - int (bit_length d)) n d"

text \<open>\<open>n / d\<close> to the nearest integer, a tie to the even one: from the quotient \<open>q\<close> and
  the remainder \<open>r\<close> of the division.\<close>

definition nearest_even :: "nat \<Rightarrow> nat \<Rightarrow> nat \<Rightarrow> nat" where
  "nearest_even q r d =
     (if 2 * r < d then q else if d < 2 * r then q + 1 else if even q then q else q + 1)"

definition round_half_even :: "nat \<Rightarrow> nat \<Rightarrow> nat" where
  "round_half_even n d = nearest_even (n div d) (n mod d) d"

text \<open>\<open>n / d\<close> in units of \<open>2^e\<close>, to the nearest unit, a tie to the even one.\<close>

definition round_at :: "int \<Rightarrow> nat \<Rightarrow> nat \<Rightarrow> nat" where
  "round_at e n d = round_half_even (n * 2 ^ nat (- e)) (d * 2 ^ nat e)"

text \<open>
  roundTiesToEven of the positive rational \<open>n / d\<close> with sign \<open>s\<close> to binary64: 53 significant
  bits, the unit in the last place \<open>2^e\<close> never below \<open>2^-1074\<close> (gradual underflow), and
  infinity when the rounded value passes the largest finite number. \<open>float64_pack\<close> brings
  a significand that rounding carried to \<open>2^53\<close> back into the format.
\<close>

definition float64_pack :: "bool \<Rightarrow> nat \<Rightarrow> int \<Rightarrow> float64" where
  "float64_pack s m e =
     (if m = 2 ^ 53
      then if 971 < e + 1 then Infinite s else Finite s (2 ^ 52) (e + 1)
      else if 971 < e then Infinite s else Finite s m e)"

definition float64_round_at :: "bool \<Rightarrow> int \<Rightarrow> nat \<Rightarrow> nat \<Rightarrow> float64" where
  "float64_round_at s e n d = float64_pack s (round_at e n d) e"

definition float64_round :: "bool \<Rightarrow> nat \<Rightarrow> nat \<Rightarrow> float64" where
  "float64_round s n d = float64_round_at s (max (floor_log2 n d - 52) (- 1074)) n d"

text \<open>
  The \<^verbatim>\<open>+\<close> of two \<^verbatim>\<open>float64\<close> (Go follows IEEE 754, rounding to nearest even): a
  zero added to a number that is not zero leaves the number; otherwise the exact sum of two
  finite operands is rounded once; an exact zero sum is \<open>+0\<close> unless both operands are
  \<open>-0\<close>.
\<close>

definition signed :: "bool \<Rightarrow> nat \<Rightarrow> int" where
  "signed s m = (if s then - int m else int m)"

definition round_sum :: "bool \<Rightarrow> bool \<Rightarrow> int \<Rightarrow> int \<Rightarrow> float64" where
  "round_sum s t g c =
     (if c = 0 then Finite (s \<and> t) 0 (- 1074)
      else float64_round (c < 0) (nat \<bar>c\<bar> * 2 ^ nat g) (2 ^ nat (- g)))"

text \<open>The sum of \<open>\<plusminus>m * 2^e\<close> and \<open>\<plusminus>n * 2^f\<close> as a multiple of \<open>2^g\<close>, for \<open>g\<close> the smaller
  exponent, and rounded.\<close>

definition add_aligned ::
  "int \<Rightarrow> bool \<Rightarrow> nat \<Rightarrow> int \<Rightarrow> bool \<Rightarrow> nat \<Rightarrow> int \<Rightarrow> float64" where
  "add_aligned g s m e t n f =
     round_sum s t g (signed s m * 2 ^ nat (e - g) + signed t n * 2 ^ nat (f - g))"

fun float64_add :: "float64 \<Rightarrow> float64 \<Rightarrow> float64" where
  "float64_add (Finite s m e) (Finite t n f) =
     (if m = 0 \<and> n \<noteq> 0 then Finite t n f
      else if n = 0 \<and> m \<noteq> 0 then Finite s m e
      else add_aligned (min e f) s m e t n f)"
| "float64_add (Finite s m e) (Infinite t) = Infinite t"
| "float64_add (Infinite s) (Finite t n f) = Infinite s"
| "float64_add (Infinite s) (Infinite t) = (if s = t then Infinite s else NaN)"
| "float64_add NaN y = NaN"
| "float64_add x NaN = NaN"

declare float64_add.simps [simp del]

subsection \<open>strconv.ParseInt\<close>

definition is_digit :: "char \<Rightarrow> bool" where
  "is_digit c = (c \<in> set ''0123456789'')"

definition digit_val :: "char \<Rightarrow> nat" where
  "digit_val c = of_char c - 48"

definition decimal :: "string \<Rightarrow> nat" where
  "decimal ds = foldl (\<lambda>a c. 10 * a + digit_val c) 0 ds"

text \<open>A string without its sign, if it starts with one, and whether the sign is a minus.\<close>

fun unsigned :: "string \<Rightarrow> string" where
  "unsigned [] = []"
| "unsigned (c # cs) = (if c = CHR ''-'' \<or> c = CHR ''+'' then cs else c # cs)"

fun negative :: "string \<Rightarrow> bool" where
  "negative [] = False"
| "negative (c # cs) = (c = CHR ''-'')"

text \<open>
  \<^verbatim>\<open>strconv.ParseInt(s, 10, 64)\<close>: an optional sign and a non-empty run of decimal digits
  whose value fits \<^verbatim>\<open>int64\<close>; anything else is an error (\<open>None\<close>).
\<close>

definition ParseInt :: "string \<Rightarrow> int option" where
  "ParseInt s =
     (if unsigned s = [] \<or> \<not> list_all is_digit (unsigned s) then None
      else if \<not> negative s \<and> 2 ^ 63 \<le> decimal (unsigned s) then None
      else if negative s \<and> 2 ^ 63 < decimal (unsigned s) then None
      else Some (if negative s then - int (decimal (unsigned s)) else int (decimal (unsigned s))))"

subsection \<open>math/big.Float, as far as the amount conversion uses it\<close>

text \<open>
  A \<^verbatim>\<open>big.Float\<close> created by \<^verbatim>\<open>new(big.Float)\<close> takes the precision 64 when a number is
  parsed into it, and rounds to nearest even. \<open>Big s m e\<close> is the finite non-zero value
  \<open>(-1)^s * m * 2^e\<close>, \<open>BigZero s\<close> is \<open>\<plusminus>0\<close> and \<open>BigInf s\<close> is \<open>\<plusminus>Inf\<close>. The exponent of a
  finite \<^verbatim>\<open>big.Float\<close>, counted from a mantissa in \<open>[1/2, 1)\<close>, is an \<^verbatim>\<open>int32\<close>.
\<close>

datatype big_Float = Big bool nat int | BigZero bool | BigInf bool

definition MaxExp :: int where
  "MaxExp = 2147483647"

definition MinExp :: int where
  "MinExp = - 2147483648"

text \<open>
  The positive rational \<open>n / d\<close> with sign \<open>s\<close> as a \<^verbatim>\<open>big.Float\<close> of precision 64
  (\<^verbatim>\<open>setExpAndRound\<close>): \<open>l\<close> is \<open>\<lfloor>log\<^sub>2 (n / d)\<rfloor>\<close>, so the exponent before rounding is \<open>l + 1\<close>;
  below \<open>MinExp\<close> the result is zero and above \<open>MaxExp\<close> infinite, also when it is the
  rounding that carries the exponent past \<open>MaxExp\<close>.
\<close>

definition round_prec_at :: "int \<Rightarrow> nat \<Rightarrow> nat \<Rightarrow> nat \<times> int" where
  "round_prec_at e n d = (round_at e n d, e)"

fun within_MaxExp :: "bool \<Rightarrow> nat \<times> int \<Rightarrow> big_Float" where
  "within_MaxExp s (m, e) = (if MaxExp < int (bit_length m) + e then BigInf s else Big s m e)"

definition round_from :: "bool \<Rightarrow> int \<Rightarrow> nat \<Rightarrow> nat \<Rightarrow> big_Float" where
  "round_from s l n d =
     (if l + 1 < MinExp then BigZero s
      else if MaxExp < l + 1 then BigInf s
      else within_MaxExp s (round_prec_at (l - 63) n d))"

definition Float_round :: "bool \<Rightarrow> nat \<Rightarrow> nat \<Rightarrow> big_Float" where
  "Float_round s n d = round_from s (floor_log2 n d) n d"

text \<open>
  The scanner of the mantissa, \<^verbatim>\<open>nat.scan(r, 0, true)\<close> of \<^verbatim>\<open>natconv.go\<close>. The value of a
  byte as a digit is 63 for a byte that is no digit or letter, more than any base.
\<close>

definition digit_of :: "char \<Rightarrow> nat" where
  "digit_of ch =
     (if 48 \<le> (of_char ch :: nat) \<and> (of_char ch :: nat) \<le> 57 then of_char ch - 48
      else if 97 \<le> (of_char ch :: nat) \<and> (of_char ch :: nat) \<le> 122 then of_char ch - 87
      else if 65 \<le> (of_char ch :: nat) \<and> (of_char ch :: nat) \<le> 90 then of_char ch - 55
      else 63)"

text \<open>The scanner's memory of the byte before: a digit, the separator \<open>_\<close>, or anything
  else (\<^verbatim>\<open>prev\<close> is \<open>'0'\<close>, \<open>'_'\<close> or \<open>'.'\<close> in the source).\<close>

datatype prev_char = Digit | Separator | Other

text \<open>What the scanner returns: the value of the digits, the base, the count \<open>cnt\<close> (the number
  of digits when there is no radix point, minus the number of digits after the point when
  there is one), and whether it returns an error (a misplaced separator, or no digit).\<close>

datatype mantissa = Mantissa nat nat int bool

fun fcount_of :: "int option \<Rightarrow> int \<Rightarrow> int" where
  "fcount_of None cnt = cnt"
| "fcount_of (Some dp) cnt = dp - cnt"

definition end_of_mantissa ::
  "nat \<Rightarrow> prev_char \<Rightarrow> bool \<Rightarrow> int \<Rightarrow> nat \<Rightarrow> int option \<Rightarrow> mantissa" where
  "end_of_mantissa b prev invalSep cnt z dp =
     Mantissa z b (fcount_of dp cnt) (invalSep \<or> prev = Separator \<or> cnt = 0)"

text \<open>
  The loop over the bytes (lines "convert string" of \<^verbatim>\<open>nat.scan\<close>): a radix point, once;
  a separator, valid after a digit only; a digit of the base; any other byte ends the
  number and is unread. The result comes with the bytes that are left.
\<close>

fun scan_digits ::
  "nat \<Rightarrow> bool \<Rightarrow> prev_char \<Rightarrow> bool \<Rightarrow> int \<Rightarrow> nat \<Rightarrow> int option \<Rightarrow> string
     \<Rightarrow> mantissa \<times> string" where
  "scan_digits b fracOk prev invalSep cnt z dp [] =
     (end_of_mantissa b prev invalSep cnt z dp, [])"
| "scan_digits b fracOk prev invalSep cnt z dp (ch # r) =
     (if ch = CHR ''.'' \<and> fracOk
      then scan_digits b False Other (invalSep \<or> prev = Separator) cnt z (Some cnt) r
      else if ch = CHR ''_''
      then scan_digits b fracOk Separator (invalSep \<or> prev \<noteq> Digit) cnt z dp r
      else if b \<le> digit_of ch
      then (end_of_mantissa b prev invalSep cnt z dp, ch # r)
      else scan_digits b fracOk Digit invalSep (cnt + 1) (z * b + digit_of ch) dp r)"

text \<open>The head of \<^verbatim>\<open>nat.scan\<close>: the base is 10 unless the number starts with one of the
  prefixes \<open>0b\<close>, \<open>0o\<close>, \<open>0x\<close> (in either case); the \<open>0\<close> of a prefix is not counted as a
  digit, any other leading \<open>0\<close> is.\<close>

definition after_zero :: "char \<Rightarrow> string \<Rightarrow> mantissa \<times> string" where
  "after_zero ch r =
     (if ch = CHR ''b'' \<or> ch = CHR ''B'' then scan_digits 2 True Digit False 0 0 None r
      else if ch = CHR ''o'' \<or> ch = CHR ''O'' then scan_digits 8 True Digit False 0 0 None r
      else if ch = CHR ''x'' \<or> ch = CHR ''X'' then scan_digits 16 True Digit False 0 0 None r
      else scan_digits 10 True Digit False 1 0 None (ch # r))"

fun nat_scan :: "string \<Rightarrow> mantissa \<times> string" where
  "nat_scan [] = scan_digits 10 True Other False 0 0 None []"
| "nat_scan [ch] =
     (if ch = CHR ''0'' then scan_digits 10 True Digit False 1 0 None []
      else scan_digits 10 True Other False 0 0 None [ch])"
| "nat_scan (ch # ch' # r) =
     (if ch = CHR ''0'' then after_zero ch' r
      else scan_digits 10 True Other False 0 0 None (ch # ch' # r))"

text \<open>
  \<^verbatim>\<open>scanExponent(r, true, true)\<close> of \<^verbatim>\<open>intconv.go\<close>: nothing, or one of \<open>e E\<close> (base 10)
  and \<open>p P\<close> (base 2), an optional sign and digits with separators; the digits are handed
  to \<^verbatim>\<open>strconv.ParseInt\<close>. The result is the exponent, its base and whether an error is
  returned (no digits, a number that does not fit \<^verbatim>\<open>int64\<close>, a misplaced separator).
\<close>

datatype exponent = Exponent int nat bool

fun scan_exponent_digits ::
  "prev_char \<Rightarrow> bool \<Rightarrow> string \<Rightarrow> string \<Rightarrow> (string \<times> prev_char \<times> bool) \<times> string" where
  "scan_exponent_digits prev invalSep digits [] = ((digits, prev, invalSep), [])"
| "scan_exponent_digits prev invalSep digits (ch # r) =
     (if is_digit ch then scan_exponent_digits Digit invalSep (digits @ [ch]) r
      else if ch = CHR ''_''
      then scan_exponent_digits Separator (invalSep \<or> prev \<noteq> Digit) digits r
      else ((digits, prev, invalSep), ch # r))"

fun parsed_exponent :: "nat \<Rightarrow> bool \<Rightarrow> int option \<Rightarrow> exponent" where
  "parsed_exponent ebase bad None = Exponent 0 ebase True"
| "parsed_exponent ebase bad (Some e) = Exponent e ebase bad"

fun end_of_exponent ::
  "nat \<Rightarrow> (string \<times> prev_char \<times> bool) \<times> string \<Rightarrow> exponent \<times> string" where
  "end_of_exponent ebase ((digits, prev, invalSep), r) =
     (if unsigned digits = [] then (Exponent 0 ebase True, r)
      else (parsed_exponent ebase (invalSep \<or> prev = Separator) (ParseInt digits), r))"

fun scan_exponent_sign :: "nat \<Rightarrow> string \<Rightarrow> exponent \<times> string" where
  "scan_exponent_sign ebase [] = end_of_exponent ebase (scan_exponent_digits Other False [] [])"
| "scan_exponent_sign ebase (ch # r) =
     (if ch = CHR ''-''
      then end_of_exponent ebase (scan_exponent_digits Other False ''-'' r)
      else if ch = CHR ''+''
      then end_of_exponent ebase (scan_exponent_digits Other False [] r)
      else end_of_exponent ebase (scan_exponent_digits Other False [] (ch # r)))"

fun scanExponent :: "string \<Rightarrow> exponent \<times> string" where
  "scanExponent [] = (Exponent 0 10 False, [])"
| "scanExponent (ch # r) =
     (if ch = CHR ''e'' \<or> ch = CHR ''E'' then scan_exponent_sign 10 r
      else if ch = CHR ''p'' \<or> ch = CHR ''P'' then scan_exponent_sign 2 r
      else (Exponent 0 10 False, ch # r))"

text \<open>
  \<^verbatim>\<open>Float.scan\<close> of \<^verbatim>\<open>floatconv.go\<close> up to the point where it has read the number: the
  sign, the mantissa, the exponent. \<open>Number neg z b fcount e ebase\<close> is what it has read;
  \<open>None\<close> says that one of the scanners returned an error. The second component is the
  part of the string that is left unread.
\<close>

datatype number = Number bool nat nat int int nat

fun with_exponent ::
  "bool \<Rightarrow> nat \<Rightarrow> nat \<Rightarrow> int \<Rightarrow> exponent \<times> string \<Rightarrow> number option \<times> string" where
  "with_exponent neg z b fcount (Exponent e ebase bad, r) =
     (if bad then (None, r) else (Some (Number neg z b fcount e ebase), r))"

fun with_mantissa :: "bool \<Rightarrow> mantissa \<times> string \<Rightarrow> number option \<times> string" where
  "with_mantissa neg (Mantissa z b fcount bad, r) =
     (if bad then (None, r) else with_exponent neg z b fcount (scanExponent r))"

definition Float_scan :: "string \<Rightarrow> number option \<times> string" where
  "Float_scan s = with_mantissa (negative s) (nat_scan (unsigned s))"

text \<open>The numeral of a string: the bytes the scanner has read when it stops.\<close>

definition numeral :: "string \<Rightarrow> string" where
  "numeral s = take (length s - length (snd (Float_scan s))) s"

text \<open>
  The value of the number read is \<open>z * 2^shift * 5^exp5\<close>: a digit after the radix point
  divides by the base, a decimal exponent multiplies by \<open>2^e * 5^e\<close>, a binary exponent by
  \<open>2^e\<close>. \<open>exp2\<close> is the binary exponent \<^verbatim>\<open>Float.scan\<close> arrives at, which has to be an
  \<^verbatim>\<open>int32\<close>.
\<close>

fun bits_per_digit :: "nat \<Rightarrow> int" where
  "bits_per_digit b = (if b = 16 then 4 else if b = 8 then 3 else 1)"

fun shift :: "number \<Rightarrow> int" where
  "shift (Number neg z b fcount e ebase) = bits_per_digit b * min fcount 0 + e"

fun exp5 :: "number \<Rightarrow> int" where
  "exp5 (Number neg z b fcount e ebase) =
     (if b = 10 then min fcount 0 else 0) + (if ebase = 10 then e else 0)"

fun exp2 :: "number \<Rightarrow> int" where
  "exp2 (Number neg z b fcount e ebase) =
     int (bit_length z) + (bits_per_digit b * min fcount 0 + e)"

fun exponent_overflow :: "number \<Rightarrow> bool" where
  "exponent_overflow (Number neg z b fcount e ebase) =
     (z \<noteq> 0 \<and> (exp2 (Number neg z b fcount e ebase) < MinExp
                \<or> MaxExp < exp2 (Number neg z b fcount e ebase)))"

text \<open>
  The receiver after the number is stored. Without a power of five the mantissa is rounded
  to the precision. With one, the unrounded mantissa is multiplied or divided by the power
  of five and the result rounded, once; \<^verbatim>\<open>Float.pow5\<close> takes the powers up to \<open>5^27\<close> from
  a table, and computes the higher ones in a loop of rounded multiplications, which is not
  modelled: the receiver is \<open>None\<close> then.
\<close>

definition scaled :: "bool \<Rightarrow> nat \<Rightarrow> int \<Rightarrow> int \<Rightarrow> big_Float" where
  "scaled neg z k q =
     Float_round neg (z * 2 ^ nat k * 5 ^ nat q) (2 ^ nat (- k) * 5 ^ nat (- q))"

fun stored :: "number \<Rightarrow> big_Float option" where
  "stored (Number neg z b fcount e ebase) =
     (if z = 0 then Some (BigZero neg)
      else if 27 < \<bar>exp5 (Number neg z b fcount e ebase)\<bar> then None
      else Some (scaled neg z (shift (Number neg z b fcount e ebase))
                   (exp5 (Number neg z b fcount e ebase))))"

text \<open>
  \<^verbatim>\<open>value.SetString(valueStr)\<close> on a fresh \<^verbatim>\<open>big.Float\<close>: the value the receiver holds
  afterwards and the success flag the call returns (which the analyzers drop).

  \<^verbatim>\<open>Float.Parse\<close> accepts the six spellings of infinity whole. For any other string
  \<^verbatim>\<open>Float.scan\<close> first sets the receiver to zero and reads the sign; when one of the
  scanners returns an error, or the exponent does not fit, it returns with the receiver as
  it is, zero with the sign read. Otherwise it stores the number, and only then does
  \<^verbatim>\<open>Parse\<close> report an error when bytes are left over.

  The scanners keep their counts in \<^verbatim>\<open>int\<close> and \<^verbatim>\<open>int64\<close>; the model counts without
  bound, which is the same for a string of less than \<open>2^60\<close> bytes.
\<close>

fun after_scan :: "bool \<Rightarrow> number option \<times> string \<Rightarrow> big_Float option \<times> bool" where
  "after_scan neg (None, r) = (Some (BigZero neg), False)"
| "after_scan neg (Some n, r) =
     (if exponent_overflow n then (Some (BigZero neg), False) else (stored n, r = []))"

definition SetString :: "string \<Rightarrow> big_Float option \<times> bool" where
  "SetString s =
     (if unsigned s \<in> set [''Inf'', ''inf''] then (Some (BigInf (negative s)), True)
      else after_scan (negative s) (Float_scan s))"

text \<open>
  \<^verbatim>\<open>value.Quo(value, divisor)\<close> for the divisor \<open>10^18\<close> (parsed exactly: it has 60 bits):
  the quotient rounded to the 64 bits of the receiver; zero stays zero and infinity
  infinity, with their signs.
\<close>

fun Quo_divisor :: "big_Float \<Rightarrow> big_Float" where
  "Quo_divisor (BigZero s) = BigZero s"
| "Quo_divisor (BigInf s) = BigInf s"
| "Quo_divisor (Big s m e) =
     Float_round s (m * 2 ^ nat e) (1000000000000000000 * 2 ^ nat (- e))"

text \<open>\<^verbatim>\<open>value.Float64()\<close>: the nearest \<^verbatim>\<open>float64\<close> (the accuracy it also returns is dropped).\<close>

fun Float64 :: "big_Float \<Rightarrow> float64" where
  "Float64 (BigZero s) = Finite s 0 (- 1074)"
| "Float64 (BigInf s) = Infinite s"
| "Float64 (Big s m e) = float64_round s (m * 2 ^ nat e) (2 ^ nat (- e))"


definition same_head :: "string \<Rightarrow> string \<Rightarrow> bool" where
  "same_head r t = (t = [] \<or> (r \<noteq> [] \<and> hd t = hd r))"

subsection \<open>strings.EqualFold\<close>

text \<open>
  \<^verbatim>\<open>strings.EqualFold(s, t)\<close> walks both strings byte by byte while both bytes are ASCII:
  equal bytes match, and so do an upper-case letter and its lower-case form. At the first
  byte of \<open>0x80\<close> or more it hands the two remaining suffixes to a loop that decodes UTF-8
  and consults the Unicode case-folding tables; that loop is the parameter \<open>unicode\<close>.
\<close>

fun EqualFold :: "(string \<Rightarrow> string \<Rightarrow> bool) \<Rightarrow> string \<Rightarrow> string \<Rightarrow> bool" where
  "EqualFold unicode (sr # s) (tr # t) =
     (if 128 \<le> (of_char sr :: nat) \<or> 128 \<le> (of_char tr :: nat) then unicode (sr # s) (tr # t)
      else if tr = sr then EqualFold unicode s t
      else if 65 \<le> min (of_char sr :: nat) (of_char tr) \<and> min (of_char sr :: nat) (of_char tr) \<le> 90
              \<and> max (of_char sr :: nat) (of_char tr) = min (of_char sr) (of_char tr) + 32
           then EqualFold unicode s t
      else False)"
| "EqualFold unicode s t = (s = [] \<and> t = [])"

text \<open>Two strings that differ in the case of ASCII letters only: equal after lower-casing.\<close>

definition ascii_lower :: "char \<Rightarrow> char" where
  "ascii_lower c = (if 65 \<le> (of_char c :: nat) \<and> (of_char c :: nat) \<le> 90
                    then char_of (of_char c + 32 :: nat) else c)"

definition is_ascii :: "string \<Rightarrow> bool" where
  "is_ascii s = list_all (\<lambda>c. (of_char c :: nat) < 128) s"

subsection \<open>The layout of time.Format\<close>

text \<open>The civil date (year, month, day) of a day number counted from 1970-01-01, in the
  proleptic Gregorian calendar.\<close>

text \<open>From the month \<open>mp\<close> counted from March (0 to 11) and the day \<open>doy\<close> of the year that
  starts on 1 March.\<close>

definition civil_month :: "int \<Rightarrow> int \<Rightarrow> int \<Rightarrow> int \<times> int \<times> int" where
  "civil_month y doy mp =
     (if mp < 10 then (y, mp + 3, doy - (153 * mp + 2) div 5 + 1)
      else (y + 1, mp - 9, doy - (153 * mp + 2) div 5 + 1))"

definition civil_day :: "int \<Rightarrow> int \<Rightarrow> int \<times> int \<times> int" where
  "civil_day y doy = civil_month y doy ((5 * doy + 2) div 153)"

text \<open>From the era (400 years, 146097 days), the day \<open>doe\<close> of the era and the year \<open>yoe\<close>
  of the era.\<close>

definition civil_year :: "int \<Rightarrow> int \<Rightarrow> int \<Rightarrow> int \<times> int \<times> int" where
  "civil_year era doe yoe =
     civil_day (yoe + era * 400) (doe - (365 * yoe + yoe div 4 - yoe div 100))"

definition civil_era :: "int \<Rightarrow> int \<Rightarrow> int \<times> int \<times> int" where
  "civil_era era doe =
     civil_year era doe ((doe - doe div 1460 + doe div 36524 - doe div 146096) div 365)"

definition civil_from_days :: "int \<Rightarrow> int \<times> int \<times> int" where
  "civil_from_days z = civil_era ((z + 719468) div 146097) ((z + 719468) mod 146097)"

definition digit_char :: "nat \<Rightarrow> char" where
  "digit_char n = char_of (48 + n mod 10)"

fun digits_of :: "nat \<Rightarrow> string" where
  "digits_of n = (if n < 10 then [digit_char n] else digits_of (n div 10) @ [digit_char n])"

declare digits_of.simps [simp del]

text \<open>\<^verbatim>\<open>appendInt(b, x, width)\<close> of package time: a minus sign for a negative number, then the
  decimal digits, zero-padded on the left to the width.\<close>

definition appendInt :: "int \<Rightarrow> nat \<Rightarrow> string" where
  "appendInt x width =
     (if x < 0 then ''-'' else '''')
     @ replicate (width - length (digits_of (nat \<bar>x\<bar>))) (CHR ''0'')
     @ digits_of (nat \<bar>x\<bar>)"

text \<open>
  \<^verbatim>\<open>t.Format("2006-01-02 15:04:05")\<close> for the wall clock reading \<open>local\<close>: the seconds since
  1970-01-01 00:00:00 of the zone's own clock (the Unix time plus the zone's offset).
\<close>

fun format_date :: "int \<times> int \<times> int \<Rightarrow> string" where
  "format_date (y, m, d) = appendInt y 4 @ ''-'' @ appendInt m 2 @ ''-'' @ appendInt d 2"

definition format_clock :: "int \<Rightarrow> string" where
  "format_clock local =
     appendInt (local mod 86400 div 3600) 2 @ '':''
     @ appendInt (local mod 3600 div 60) 2 @ '':''
     @ appendInt (local mod 60) 2"

definition time_Format :: "int \<Rightarrow> string" where
  "time_Format local =
     format_date (civil_from_days (local div 86400)) @ '' '' @ format_clock local"

text \<open>
  Package \<^verbatim>\<open>time\<close> counts the seconds of the wall clock from the start of an absolute
  year in a \<^verbatim>\<open>uint64\<close>: the clock reading plus \<open>9223372028715321600\<close> (from 1 January
  of the year \<open>-292277022399\<close>) in the older releases, plus \<open>9223372028741760000\<close> (from
  the 1 March before) in the newer ones. A reading for which this sum is negative, or
  \<open>2^64\<close> or more, wraps around, and the time printed is that of another reading.
  \<open>calendar_range\<close> holds of the readings that wrap in neither: those from 1 January of
  the year \<open>-292277022399\<close> on and below \<open>2^64 - 9223372028741760000\<close>.
\<close>

definition calendar_range :: "int \<Rightarrow> bool" where
  "calendar_range local =
     (- 9223372028715321600 \<le> local \<and> local < 9223372044967791616)"

subsection \<open>What the model leaves to the runtime\<close>

record runtime =
  fold_unicode :: "string \<Rightarrow> string \<Rightarrow> bool"
  amount_other :: "string \<Rightarrow> float64"
  zone_offset :: "int \<Rightarrow> int"
  wrapped_clock :: "int \<Rightarrow> int"

text \<open>
  \<^item> \<open>fold_unicode\<close>: the Unicode loop of \<^verbatim>\<open>strings.EqualFold\<close>;
  \<^item> \<open>amount_other\<close>: the \<^verbatim>\<open>float64\<close> the amount conversion yields for a numeral whose
    power of five is beyond the table of \<^verbatim>\<open>Float.pow5\<close> (the argument is the numeral);
  \<^item> \<open>zone_offset\<close>: the offset from UTC, in seconds, of the process's local time zone
    (\<^verbatim>\<open>time.Local\<close>) at a given Unix time;
  \<^item> \<open>wrapped_clock\<close>: the wall clock reading whose time is printed for a Unix time
    whose own reading is outside \<open>calendar_range\<close>.
\<close>

section \<open>The data model (internal/etherscan/models.go, internal/analyzer)\<close>

text \<open>
  Errors are values. \<open>New msg\<close> is an error made from a message (\<^verbatim>\<open>fmt.Errorf\<close> with
  \<^verbatim>\<open>%s\<close> only, or an error of the network, the reader or the JSON decoder, known by its
  text); \<open>Wrap msg err\<close> is \<^verbatim>\<open>fmt.Errorf("msg: %w", err)\<close>; \<open>NumError s\<close> is the error of
  \<^verbatim>\<open>strconv.ParseInt\<close> on \<open>s\<close>.
\<close>

datatype error = New string | NumError string | Wrap string error

text \<open>
  \<^verbatim>\<open>Transaction\<close> and \<^verbatim>\<open>TokenTransfer\<close>, with the fields the analyzers read (every field
  is a string in the source; the block number, the gas fields, the input, the contract
  address and the confirmations are carried along by the decoder and never read).
\<close>

record Transaction =
  Hash :: string
  TimeStamp :: string
  From :: string
  To :: string
  Value :: string
  IsError :: string

record TokenTransfer =
  Hash :: string
  TimeStamp :: string
  From :: string
  To :: string
  Value :: string
  TokenName :: string
  TokenSymbol :: string

record TransactionDetails =
  TxAmount :: float64
  DateTime :: string
  TransactionID :: string

text \<open>
  \<^verbatim>\<open>Beneficiary\<close> and \<^verbatim>\<open>Payer\<close> have the same three fields (the JSON tag of the address
  is all that differs), so one record models both.
\<close>

record Beneficiary =
  Address :: string
  Amount :: float64
  Transactions :: "TransactionDetails list"

type_synonym Payer = Beneficiary

section \<open>Normalisation of a record (models.go, processBeneficiary, processPayer)\<close>

text \<open>
  The wall clock reading \<^verbatim>\<open>time.Unix(unixTime, 0).Format\<close> prints: the Unix time plus the
  offset of the local zone when that is in the range of the calendar.
\<close>

definition wall_clock :: "runtime \<Rightarrow> int \<Rightarrow> int" where
  "wall_clock rt unixTime =
     (if calendar_range (unixTime + zone_offset rt unixTime)
      then unixTime + zone_offset rt unixTime
      else wrapped_clock rt unixTime)"

text \<open>
  \<^verbatim>\<open>FormatTime\<close> (models.go, lines 62-77): the timestamp string parsed as a base-10
  \<^verbatim>\<open>int64\<close>, taken as Unix seconds and printed in the local zone with the layout
  \<^verbatim>\<open>2006-01-02 15:04:05\<close>; a string that does not parse is an error.
\<close>

definition FormatTime :: "runtime \<Rightarrow> string \<Rightarrow> error + string" where
  "FormatTime rt timestamp =
     (case ParseInt timestamp of
        None \<Rightarrow> Inl (Wrap ''error parsing timestamp'' (NumError timestamp))
      | Some unixTime \<Rightarrow> Inr (time_Format (wall_clock rt unixTime)))"

text \<open>
  The conversion from Wei to Ether at the head of \<^verbatim>\<open>processBeneficiary\<close> (lines 174-181)
  and of \<^verbatim>\<open>processPayer\<close> (lines 109-116), which the specification calls
  \<open>toDisplayAmount\<close>: the value string is parsed into a \<^verbatim>\<open>big.Float\<close>, the success flag
  dropped, the result divided by \<open>10^18\<close> and converted to \<^verbatim>\<open>float64\<close>.
\<close>

fun amount_of :: "runtime \<Rightarrow> string \<Rightarrow> big_Float option \<times> bool \<Rightarrow> float64" where
  "amount_of rt valueStr (None, ok) = amount_other rt (numeral valueStr)"
| "amount_of rt valueStr (Some v, ok) = Float64 (Quo_divisor v)"

definition toDisplayAmount :: "runtime \<Rightarrow> string \<Rightarrow> float64" where
  "toDisplayAmount rt valueStr = amount_of rt valueStr (SetString valueStr)"

text \<open>The display time of \<^verbatim>\<open>processBeneficiary\<close> (lines 183-190): the formatted time, or the
  raw timestamp string when formatting fails.\<close>

definition dateTime_of :: "runtime \<Rightarrow> string \<Rightarrow> string" where
  "dateTime_of rt timestampStr =
     (case FormatTime rt timestampStr of Inl err \<Rightarrow> timestampStr | Inr dateTime \<Rightarrow> dateTime)"

definition txDetails_of :: "runtime \<Rightarrow> string \<Rightarrow> string \<Rightarrow> string \<Rightarrow> TransactionDetails" where
  "txDetails_of rt valueStr hash timestampStr =
     \<lparr>TxAmount = toDisplayAmount rt valueStr,
      DateTime = dateTime_of rt timestampStr,
      TransactionID = hash\<rparr>"

text \<open>
  The map \<^verbatim>\<open>map[string]*Beneficiary\<close> is an association list with distinct keys. A Go map
  has no order; the order of the list is the order in which the keys were inserted, and
  the program sees it through \<open>range_values\<close> only, which forgets it.

  \<^verbatim>\<open>processBeneficiary\<close> (lines 171-218): an entry that exists is updated in place through
  its pointer, a new one is inserted.
\<close>

definition processBeneficiary ::
  "runtime \<Rightarrow> (string \<times> Beneficiary) list \<Rightarrow> string \<Rightarrow> string \<Rightarrow> string \<Rightarrow> string
     \<Rightarrow> (string \<times> Beneficiary) list" where
  "processBeneficiary rt beneficiaryMap beneficiaryAddr valueStr hash timestampStr =
     (let txDetails = txDetails_of rt valueStr hash timestampStr
      in case map_of beneficiaryMap beneficiaryAddr of
           Some b \<Rightarrow>
             AList.update beneficiaryAddr
               (b\<lparr>Amount := float64_add (Amount b) (TxAmount txDetails),
                  Transactions := Transactions b @ [txDetails]\<rparr>)
               beneficiaryMap
         | None \<Rightarrow>
             beneficiaryMap @
               [(beneficiaryAddr,
                 \<lparr>Address = beneficiaryAddr, Amount = TxAmount txDetails,
                  Transactions = [txDetails]\<rparr>)])"

text \<open>\<^verbatim>\<open>processPayer\<close> (payer.go, lines 106-142) is the same function on the payer map.\<close>

definition processPayer ::
  "runtime \<Rightarrow> (string \<times> Payer) list \<Rightarrow> string \<Rightarrow> string \<Rightarrow> string \<Rightarrow> string
     \<Rightarrow> (string \<times> Payer) list" where
  "processPayer rt payerMap payerAddr valueStr hash timestampStr =
     (let txDetails = txDetails_of rt valueStr hash timestampStr
      in case map_of payerMap payerAddr of
           Some p \<Rightarrow>
             AList.update payerAddr
               (p\<lparr>Amount := float64_add (Amount p) (TxAmount txDetails),
                  Transactions := Transactions p @ [txDetails]\<rparr>)
               payerMap
         | None \<Rightarrow>
             payerMap @
               [(payerAddr,
                 \<lparr>Address = payerAddr, Amount = TxAmount txDetails,
                  Transactions = [txDetails]\<rparr>)])"

section \<open>The aggregation (AnalyzeBeneficiary lines 92-155, AnalyzePayer lines 69-100)\<close>

text \<open>
  The three loops of \<^verbatim>\<open>AnalyzeBeneficiary\<close>, over the normal transactions, the internal
  transactions and the token transfers, in this order, on the map that starts empty.
  (The debug printing of the source has no effect on the result and is left out.)
\<close>

definition outgoing_tx :: "runtime \<Rightarrow> string \<Rightarrow> Transaction \<Rightarrow> bool" where
  "outgoing_tx rt address tx =
     (EqualFold (fold_unicode rt) (Transaction.From tx) address \<and> IsError tx = ''0'')"

definition outgoing_transfer :: "runtime \<Rightarrow> string \<Rightarrow> TokenTransfer \<Rightarrow> bool" where
  "outgoing_transfer rt address transfer =
     EqualFold (fold_unicode rt) (TokenTransfer.From transfer) address"

definition AnalyzeBeneficiary_map ::
  "runtime \<Rightarrow> string \<Rightarrow> Transaction list \<Rightarrow> Transaction list \<Rightarrow> TokenTransfer list
     \<Rightarrow> (string \<times> Beneficiary) list" where
  "AnalyzeBeneficiary_map rt address normalTxs internalTxs tokenTransfers =
     (let m1 = foldl (\<lambda>beneficiaryMap tx.
                  if outgoing_tx rt address tx
                  then processBeneficiary rt beneficiaryMap (Transaction.To tx)
                         (Transaction.Value tx) (Transaction.Hash tx) (Transaction.TimeStamp tx)
                  else beneficiaryMap) [] normalTxs;
          m2 = foldl (\<lambda>beneficiaryMap tx.
                  if outgoing_tx rt address tx
                  then processBeneficiary rt beneficiaryMap (Transaction.To tx)
                         (Transaction.Value tx) (Transaction.Hash tx) (Transaction.TimeStamp tx)
                  else beneficiaryMap) m1 internalTxs
      in foldl (\<lambda>beneficiaryMap transfer.
                  if outgoing_transfer rt address transfer
                  then processBeneficiary rt beneficiaryMap (TokenTransfer.To transfer)
                         (TokenTransfer.Value transfer) (TokenTransfer.Hash transfer)
                         (TokenTransfer.TimeStamp transfer)
                  else beneficiaryMap) m2 tokenTransfers)"

text \<open>The loops of \<^verbatim>\<open>AnalyzePayer\<close>: the filter is on \<^verbatim>\<open>To\<close>, the key is \<^verbatim>\<open>From\<close>.\<close>

definition incoming_tx :: "runtime \<Rightarrow> string \<Rightarrow> Transaction \<Rightarrow> bool" where
  "incoming_tx rt address tx =
     (EqualFold (fold_unicode rt) (Transaction.To tx) address \<and> IsError tx = ''0'')"

definition incoming_transfer :: "runtime \<Rightarrow> string \<Rightarrow> TokenTransfer \<Rightarrow> bool" where
  "incoming_transfer rt address transfer =
     EqualFold (fold_unicode rt) (TokenTransfer.To transfer) address"

definition AnalyzePayer_map ::
  "runtime \<Rightarrow> string \<Rightarrow> Transaction list \<Rightarrow> Transaction list \<Rightarrow> TokenTransfer list
     \<Rightarrow> (string \<times> Payer) list" where
  "AnalyzePayer_map rt address normalTxs internalTxs tokenTransfers =
     (let m1 = foldl (\<lambda>payerMap tx.
                  if incoming_tx rt address tx
                  then processPayer rt payerMap (Transaction.From tx)
                         (Transaction.Value tx) (Transaction.Hash tx) (Transaction.TimeStamp tx)
                  else payerMap) [] normalTxs;
          m2 = foldl (\<lambda>payerMap tx.
                  if incoming_tx rt address tx
                  then processPayer rt payerMap (Transaction.From tx)
                         (Transaction.Value tx) (Transaction.Hash tx) (Transaction.TimeStamp tx)
                  else payerMap) m1 internalTxs
      in foldl (\<lambda>payerMap transfer.
                  if incoming_transfer rt address transfer
                  then processPayer rt payerMap (TokenTransfer.From transfer)
                         (TokenTransfer.Value transfer) (TokenTransfer.Hash transfer)
                         (TokenTransfer.TimeStamp transfer)
                  else payerMap) m2 tokenTransfers)"

text \<open>
  "Convert map to slice" (lines 151-155; payer.go lines 96-100): the slice is made empty
  and non-nil, and \<^verbatim>\<open>for _, v := range m\<close> appends every value of the map once. Go leaves
  the order of a \<^verbatim>\<open>range\<close> over a map unspecified, so the slice may be any arrangement of
  the values: \<open>range_values m vs\<close> says that \<open>vs\<close> is one.
\<close>

definition range_values :: "('k \<times> 'v) list \<Rightarrow> 'v list \<Rightarrow> bool" where
  "range_values m vs = (mset vs = mset (map snd m))"

text \<open>The aggregation as a whole, from the three fetched lists to a slice it may return.\<close>

definition AnalyzeBeneficiary_aggregate ::
  "runtime \<Rightarrow> string \<Rightarrow> Transaction list \<Rightarrow> Transaction list \<Rightarrow> TokenTransfer list
     \<Rightarrow> Beneficiary list \<Rightarrow> bool" where
  "AnalyzeBeneficiary_aggregate rt address normalTxs internalTxs tokenTransfers beneficiaries =
     range_values (AnalyzeBeneficiary_map rt address normalTxs internalTxs tokenTransfers)
       beneficiaries"

definition AnalyzePayer_aggregate ::
  "runtime \<Rightarrow> string \<Rightarrow> Transaction list \<Rightarrow> Transaction list \<Rightarrow> TokenTransfer list
     \<Rightarrow> Payer list \<Rightarrow> bool" where
  "AnalyzePayer_aggregate rt address normalTxs internalTxs tokenTransfers payers =
     range_values (AnalyzePayer_map rt address normalTxs internalTxs tokenTransfers) payers"

subsection \<open>The records that reach the map\<close>

text \<open>
  The four arguments of a call of \<^verbatim>\<open>processBeneficiary\<close> or \<^verbatim>\<open>processPayer\<close>: the
  counterparty address (the key), the value string, the hash and the timestamp string.
\<close>

type_synonym call = "string \<times> string \<times> string \<times> string"

definition tx_out :: "Transaction \<Rightarrow> call" where
  "tx_out tx =
     (Transaction.To tx, Transaction.Value tx, Transaction.Hash tx, Transaction.TimeStamp tx)"

definition transfer_out :: "TokenTransfer \<Rightarrow> call" where
  "transfer_out transfer =
     (TokenTransfer.To transfer, TokenTransfer.Value transfer, TokenTransfer.Hash transfer,
      TokenTransfer.TimeStamp transfer)"

definition tx_in :: "Transaction \<Rightarrow> call" where
  "tx_in tx =
     (Transaction.From tx, Transaction.Value tx, Transaction.Hash tx, Transaction.TimeStamp tx)"

definition transfer_in :: "TokenTransfer \<Rightarrow> call" where
  "transfer_in transfer =
     (TokenTransfer.From transfer, TokenTransfer.Value transfer, TokenTransfer.Hash transfer,
      TokenTransfer.TimeStamp transfer)"

text \<open>The calls the three loops make, in the order they make them: the records that pass
  the direction filter and the error filter, source by source.\<close>

definition beneficiary_calls ::
  "runtime \<Rightarrow> string \<Rightarrow> Transaction list \<Rightarrow> Transaction list \<Rightarrow> TokenTransfer list
     \<Rightarrow> call list" where
  "beneficiary_calls rt address normalTxs internalTxs tokenTransfers =
     map tx_out (filter (outgoing_tx rt address) normalTxs)
     @ map tx_out (filter (outgoing_tx rt address) internalTxs)
     @ map transfer_out (filter (outgoing_transfer rt address) tokenTransfers)"

definition payer_calls ::
  "runtime \<Rightarrow> string \<Rightarrow> Transaction list \<Rightarrow> Transaction list \<Rightarrow> TokenTransfer list
     \<Rightarrow> call list" where
  "payer_calls rt address normalTxs internalTxs tokenTransfers =
     map tx_in (filter (incoming_tx rt address) normalTxs)
     @ map tx_in (filter (incoming_tx rt address) internalTxs)
     @ map transfer_in (filter (incoming_transfer rt address) tokenTransfers)"

text \<open>The \<^verbatim>\<open>TransactionDetails\<close> a call adds.\<close>

definition call_details :: "runtime \<Rightarrow> call \<Rightarrow> TransactionDetails" where
  "call_details rt c = txDetails_of rt (fst (snd c)) (fst (snd (snd c))) (snd (snd (snd c)))"

text \<open>The elements of a list in the order of their first occurrence, each once.\<close>

definition first_occurrences :: "'a list \<Rightarrow> 'a list" where
  "first_occurrences xs = rev (remdups (rev xs))"

text \<open>The sum of a list of \<^verbatim>\<open>float64\<close>, added up from zero in the order of the list.\<close>

definition float64_sum :: "float64 list \<Rightarrow> float64" where
  "float64_sum xs = foldl float64_add float64_zero xs"

text \<open>
  For the proofs: the map after a list of calls, the details a key has collected, their
  running total, and the entry the map holds for the key.
\<close>

definition grouped :: "runtime \<Rightarrow> call list \<Rightarrow> (string \<times> Beneficiary) list" where
  "grouped rt cs = foldl (\<lambda>m (k, v, h, ts). processBeneficiary rt m k v h ts) [] cs"

definition details_for :: "runtime \<Rightarrow> call list \<Rightarrow> string \<Rightarrow> TransactionDetails list" where
  "details_for rt cs k =
     map (\<lambda>(k', v, h, ts). txDetails_of rt v h ts) (filter (\<lambda>c. fst c = k) cs)"

definition running_total :: "TransactionDetails list \<Rightarrow> float64" where
  "running_total ds = foldl float64_add (TxAmount (hd ds)) (map TxAmount (tl ds))"

definition entry_of :: "runtime \<Rightarrow> call list \<Rightarrow> string \<Rightarrow> Beneficiary" where
  "entry_of rt cs k =
     \<lparr>Address = k, Amount = running_total (details_for rt cs k),
      Transactions = details_for rt cs k\<rparr>"

section \<open>The client (internal/etherscan/client.go)\<close>

text \<open>
  The network is what the client sees of it. A request to an endpoint either fails in the
  transport (\<^verbatim>\<open>httpClient.Get\<close> returns an error), or its body cannot be read
  (\<^verbatim>\<open>io.ReadAll\<close> returns an error), or it yields a body. A body is known by what
  \<^verbatim>\<open>json.Unmarshal\<close> makes of it at the three types the client decodes to.
\<close>

record TransactionResponse =
  Status :: string
  Message :: string
  Result :: "Transaction list"

record TokenTransferResponse =
  Status :: string
  Message :: string
  Result :: "TokenTransfer list"

record errorResult =
  Status :: string
  Message :: string
  Result :: string

record body =
  as_TransactionResponse :: "error + TransactionResponse"
  as_TokenTransferResponse :: "error + TokenTransferResponse"
  as_errorResult :: "error + errorResult"

datatype reply = GetError error | ReadError error | Body body

text \<open>\<open>net url k\<close> is the outcome of the request to \<open>url\<close> that \<open>k\<close> requests to it precede.\<close>

type_synonym network = "string \<Rightarrow> nat \<Rightarrow> reply"

text \<open>What a fetch does besides returning: its requests and its sleeps (in seconds).\<close>

datatype event = Request | Sleep nat

record Client =
  apiKey :: string

definition baseURL :: string where
  "baseURL = ''https://api.etherscan.io/api''"

definition endpoint :: "Client \<Rightarrow> string \<Rightarrow> string \<Rightarrow> string" where
  "endpoint c action address =
     baseURL @ ''?module=account&action='' @ action @ ''&address='' @ address
     @ ''&startblock=0&endblock=99999999&page=1&offset=100&sort=desc&apikey='' @ apiKey c"

text \<open>
  The retry loop of \<^verbatim>\<open>fetchTransactions\<close> (lines 379-390): \<open>retry\<close> counts from 0 below
  \<open>maxRetries\<close>; before every attempt but the first the goroutine sleeps \<open>retry * retry\<close>
  seconds; the loop ends at the first request the transport answers. The loop's variables
  \<^verbatim>\<open>resp\<close> and \<^verbatim>\<open>err\<close> are the last outcome (\<open>None\<close> before the first request).
\<close>

function retry_loop ::
  "(nat \<Rightarrow> reply) \<Rightarrow> nat \<Rightarrow> nat \<Rightarrow> reply option \<Rightarrow> event list \<Rightarrow> reply option \<times> event list" where
  "retry_loop get maxRetries retry prev trace =
     (if retry < maxRetries
      then let trace' = (if 0 < retry then trace @ [Sleep (retry * retry)] else trace) @ [Request]
           in case get retry of
                GetError err \<Rightarrow> retry_loop get maxRetries (retry + 1) (Some (GetError err)) trace'
              | ReadError err \<Rightarrow> (Some (ReadError err), trace')
              | Body b \<Rightarrow> (Some (Body b), trace')
      else (prev, trace))"
  by pat_completeness auto
termination
  by (relation "measure (\<lambda>(get, maxRetries, retry, prev, trace). maxRetries - retry)") auto

declare retry_loop.simps [simp del]

text \<open>The decoding of \<^verbatim>\<open>fetchTransactions\<close> (lines 411-462).\<close>

definition decode_transactions :: "body \<Rightarrow> error + Transaction list" where
  "decode_transactions b =
     (case as_TransactionResponse b of
        Inl err \<Rightarrow>
          (case as_errorResult b of
             Inr errorResult \<Rightarrow>
               if errorResult.Result errorResult \<noteq> []
               then if errorResult.Result errorResult = ''Max rate limit reached''
                    then Inl (New ''etherscan API rate limit exceeded, please try again later'')
                    else Inl (New (''etherscan API error: '' @ errorResult.Result errorResult))
               else Inl (Wrap ''error unmarshaling response'' err)
           | Inl jsonErr \<Rightarrow> Inl (Wrap ''error unmarshaling response'' err))
      | Inr result \<Rightarrow>
          if TransactionResponse.Status result = ''0''
             \<and> TransactionResponse.Message result = ''No transactions found''
          then Inr []
          else if TransactionResponse.Status result = ''0''
          then Inl (New (''etherscan API error: '' @ TransactionResponse.Message result))
          else Inr (TransactionResponse.Result result))"

text \<open>
  \<^verbatim>\<open>fetchTransactions\<close> (lines 373-463), with \<open>get\<close> the network at the endpoint. The loop
  runs three times at most, so it makes at least one request and \<^verbatim>\<open>resp\<close> is never nil
  where the body is read (the case \<open>None\<close> below is not reached).
\<close>

definition fetchTransactions :: "(nat \<Rightarrow> reply) \<Rightarrow> (error + Transaction list) \<times> event list" where
  "fetchTransactions get =
     (case retry_loop get 3 0 None [] of
        (resp, trace) \<Rightarrow>
          (case resp of
             None \<Rightarrow> Inl (New ''invalid memory address or nil pointer dereference'')
           | Some (GetError err) \<Rightarrow> Inl (Wrap ''error fetching transactions after 3 retries'' err)
           | Some (ReadError err) \<Rightarrow> Inl (Wrap ''error reading response body'' err)
           | Some (Body b) \<Rightarrow> decode_transactions b,
           trace))"

definition GetNormalTransactions ::
  "Client \<Rightarrow> network \<Rightarrow> string \<Rightarrow> (error + Transaction list) \<times> event list" where
  "GetNormalTransactions c net address = fetchTransactions (net (endpoint c ''txlist'' address))"

definition GetInternalTransactions ::
  "Client \<Rightarrow> network \<Rightarrow> string \<Rightarrow> (error + Transaction list) \<times> event list" where
  "GetInternalTransactions c net address =
     fetchTransactions (net (endpoint c ''txlistinternal'' address))"

text \<open>\<^verbatim>\<open>GetTokenTransfers\<close> (lines 298-370): one request, then the decoding.\<close>

definition decode_transfers :: "body \<Rightarrow> error + TokenTransfer list" where
  "decode_transfers b =
     (case as_TokenTransferResponse b of
        Inl err \<Rightarrow> Inl (Wrap ''error unmarshaling response'' err)
      | Inr result \<Rightarrow>
          if TokenTransferResponse.Status result = ''0''
          then if TokenTransferResponse.Message result = ''No transactions found''
               then Inr []
               else (case as_errorResult b of
                       Inr errorResult \<Rightarrow>
                         if errorResult.Result errorResult \<noteq> []
                         then if errorResult.Result errorResult = ''Max rate limit reached''
                              then Inl (New ''etherscan API rate limit exceeded, please try again later'')
                              else Inl (New (''etherscan API error: ''
                                               @ errorResult.Result errorResult))
                         else Inl (New (''etherscan API error: ''
                                          @ TokenTransferResponse.Message result))
                     | Inl jsonErr \<Rightarrow>
                         Inl (New (''etherscan API error: ''
                                     @ TokenTransferResponse.Message result)))
          else Inr (TokenTransferResponse.Result result))"

definition GetTokenTransfers ::
  "Client \<Rightarrow> network \<Rightarrow> string \<Rightarrow> (error + TokenTransfer list) \<times> event list" where
  "GetTokenTransfers c net address =
     (case net (endpoint c ''tokentx'' address) 0 of
        GetError err \<Rightarrow> Inl (Wrap ''error fetching token transfers'' err)
      | ReadError err \<Rightarrow> Inl (Wrap ''error reading response body'' err)
      | Body b \<Rightarrow> decode_transfers b,
      [Request])"

section \<open>The analysis as a whole (AnalyzeBeneficiary, AnalyzePayer)\<close>

text \<open>
  Both analyzers start three goroutines in an \<^verbatim>\<open>errgroup.Group\<close> (beneficiary.go lines
  47-90, payer.go lines 33-67; the same text). The goroutines write the variables of the
  enclosing function: each its own slice, and all three the one variable \<^verbatim>\<open>err\<close>
  declared before them. A goroutine takes two steps: the call with the assignment
  \<^verbatim>\<open>xs, err = GetX(address)\<close>, and then the test \<^verbatim>\<open>if err != nil\<close> with the return. The
  group keeps the first error a goroutine returns.
\<close>

record fetches =
  normalTxs :: "Transaction list"
  internalTxs :: "Transaction list"
  tokenTransfers :: "TokenTransfer list"
  err :: "error option"
  pc :: "nat \<Rightarrow> nat"
  group_err :: "error option"

definition fetches_init :: fetches where
  "fetches_init =
     \<lparr>normalTxs = [], internalTxs = [], tokenTransfers = [], err = None,
      pc = (\<lambda>g. 0), group_err = None\<rparr>"

text \<open>The first step of goroutine \<open>g\<close>: the fetch and the assignment of both results (a
  fetch that fails returns the nil slice).\<close>

definition assign :: "Client \<Rightarrow> network \<Rightarrow> string \<Rightarrow> nat \<Rightarrow> fetches \<Rightarrow> fetches" where
  "assign c net address g st =
     (if g = 0 then
        (case fst (GetNormalTransactions c net address) of
           Inl e \<Rightarrow> st\<lparr>normalTxs := [], err := Some e\<rparr>
         | Inr txs \<Rightarrow> st\<lparr>normalTxs := txs, err := None\<rparr>)
      else if g = 1 then
        (case fst (GetInternalTransactions c net address) of
           Inl e \<Rightarrow> st\<lparr>internalTxs := [], err := Some e\<rparr>
         | Inr txs \<Rightarrow> st\<lparr>internalTxs := txs, err := None\<rparr>)
      else
        (case fst (GetTokenTransfers c net address) of
           Inl e \<Rightarrow> st\<lparr>tokenTransfers := [], err := Some e\<rparr>
         | Inr transfers \<Rightarrow> st\<lparr>tokenTransfers := transfers, err := None\<rparr>))"

definition wrap_message :: "nat \<Rightarrow> string" where
  "wrap_message g =
     (if g = 0 then ''error fetching normal transactions''
      else if g = 1 then ''error fetching internal transactions''
      else ''error fetching token transfers'')"

text \<open>The second step: the goroutine reads \<^verbatim>\<open>err\<close> as it is now and returns; the group
  records the error returned unless it holds one already.\<close>

definition return_step :: "nat \<Rightarrow> fetches \<Rightarrow> fetches" where
  "return_step g st =
     (case err st of
        None \<Rightarrow> st
      | Some e \<Rightarrow>
          (case group_err st of
             None \<Rightarrow> st\<lparr>group_err := Some (Wrap (wrap_message g) e)\<rparr>
           | Some first \<Rightarrow> st))"

definition step :: "Client \<Rightarrow> network \<Rightarrow> string \<Rightarrow> fetches \<Rightarrow> nat \<Rightarrow> fetches" where
  "step c net address st g =
     (if 3 \<le> g then st
      else if pc st g = 0 then (assign c net address g st)\<lparr>pc := (pc st)(g := 1)\<rparr>
      else if pc st g = 1 then (return_step g st)\<lparr>pc := (pc st)(g := 2)\<rparr>
      else st)"

text \<open>
  \<^verbatim>\<open>eg.Wait()\<close>: the goroutines (0 the normal transactions, 1 the internal ones, 2 the
  token transfers) take their steps in the order the scheduler chooses, the list \<open>sched\<close>;
  whatever steps it leaves out are taken at the end, so that every list is a schedule and
  all three goroutines have returned when \<^verbatim>\<open>Wait\<close> does.
\<close>

definition Wait :: "Client \<Rightarrow> network \<Rightarrow> nat list \<Rightarrow> string \<Rightarrow> fetches" where
  "Wait c net sched address = foldl (step c net address) fetches_init (sched @ [0, 0, 1, 1, 2, 2])"

text \<open>
  \<^verbatim>\<open>AnalyzeBeneficiary\<close> and \<^verbatim>\<open>AnalyzePayer\<close>: the pair they may return, the slice (\<open>None\<close>
  is nil) and the error (\<open>None\<close> is nil).
\<close>

definition AnalyzeBeneficiary ::
  "Client \<Rightarrow> network \<Rightarrow> runtime \<Rightarrow> nat list \<Rightarrow> string
     \<Rightarrow> Beneficiary list option \<times> error option \<Rightarrow> bool" where
  "AnalyzeBeneficiary c net rt sched address ret =
     (let st = Wait c net sched address
      in case group_err st of
           Some e \<Rightarrow> ret = (None, Some e)
         | None \<Rightarrow>
             (case ret of
                (Some beneficiaries, None) \<Rightarrow>
                  AnalyzeBeneficiary_aggregate rt address
                    (normalTxs st) (internalTxs st) (tokenTransfers st) beneficiaries
              | (Some beneficiaries, Some e) \<Rightarrow> False
              | (None, e) \<Rightarrow> False))"

definition AnalyzePayer ::
  "Client \<Rightarrow> network \<Rightarrow> runtime \<Rightarrow> nat list \<Rightarrow> string
     \<Rightarrow> Payer list option \<times> error option \<Rightarrow> bool" where
  "AnalyzePayer c net rt sched address ret =
     (let st = Wait c net sched address
      in case group_err st of
           Some e \<Rightarrow> ret = (None, Some e)
         | None \<Rightarrow>
             (case ret of
                (Some payers, None) \<Rightarrow>
                  AnalyzePayer_aggregate rt address
                    (normalTxs st) (internalTxs st) (tokenTransfers st) payers
              | (Some payers, Some e) \<Rightarrow> False
              | (None, e) \<Rightarrow> False))"

text \<open>
  For the proofs: what holds of the shared variables at every moment when all three fetches
  succeed with the lists \<open>n\<close>, \<open>i\<close> and \<open>t\<close>.
\<close>

definition all_fetched ::
  "Transaction list \<Rightarrow> Transaction list \<Rightarrow> TokenTransfer list \<Rightarrow> fetches \<Rightarrow> bool" where
  "all_fetched n i t st =
     (err st = None \<and> group_err st = None
      \<and> (1 \<le> pc st 0 \<longrightarrow> normalTxs st = n)
      \<and> (1 \<le> pc st 1 \<longrightarrow> internalTxs st = i)
      \<and> (1 \<le> pc st 2 \<longrightarrow> tokenTransfers st = t))"

section \<open>Example inputs\<close>

text \<open>
  A runtime for the examples: the process runs in UTC, and the three functions that stand
  for the unmodelled parts of the library are never consulted by the inputs below.
\<close>

definition example_runtime :: runtime where
  "example_runtime =
     \<lparr>fold_unicode = (\<lambda>s t. False), amount_other = (\<lambda>s. NaN), zone_offset = (\<lambda>u. 0),
      wrapped_clock = (\<lambda>u. 0)\<rparr>"

definition example_client :: Client where
  "example_client = \<lparr>apiKey = ''KEY''\<rparr>"

text \<open>
  The records of the examples. The address queried is \<open>0xa\<close>; the records spell it \<open>0xA\<close>.
  \<open>0xA\<close> pays 1 Ether and then 100 Wei to \<open>0xB\<close>, and 100 Wei twice to \<open>0xC\<close>; a payment
  of \<open>0xA\<close> to \<open>0xD\<close> failed; \<open>0xC\<close> pays half an Ether to \<open>0xA\<close>; \<open>0xA\<close> transfers half
  a token (of 18 decimals) to \<open>0xB\<close>, and \<open>0xC\<close> as much to \<open>0xA\<close>. \<open>record_7\<close> is the
  first of the two transfers as the decoder of transactions reads it: a token transfer has
  no field \<^verbatim>\<open>isError\<close>, so the field stays empty.
\<close>

definition record_1 :: Transaction where
  "record_1 =
     \<lparr>Transaction.Hash = ''h1'', TimeStamp = ''1690000000'', From = ''0xA'', To = ''0xB'',
      Value = ''1000000000000000000'', IsError = ''0''\<rparr>"

definition record_2 :: Transaction where
  "record_2 =
     \<lparr>Transaction.Hash = ''h2'', TimeStamp = ''1690000000'', From = ''0xA'', To = ''0xB'',
      Value = ''100'', IsError = ''0''\<rparr>"

definition record_3 :: Transaction where
  "record_3 =
     \<lparr>Transaction.Hash = ''h3'', TimeStamp = ''1690000000'', From = ''0xA'', To = ''0xC'',
      Value = ''100'', IsError = ''0''\<rparr>"

definition record_4 :: Transaction where
  "record_4 =
     \<lparr>Transaction.Hash = ''h4'', TimeStamp = ''1690000000'', From = ''0xA'', To = ''0xC'',
      Value = ''100'', IsError = ''0''\<rparr>"

definition record_5 :: Transaction where
  "record_5 =
     \<lparr>Transaction.Hash = ''h5'', TimeStamp = ''1690000000'', From = ''0xA'', To = ''0xD'',
      Value = ''1000000000000000000'', IsError = ''1''\<rparr>"

definition record_6 :: Transaction where
  "record_6 =
     \<lparr>Transaction.Hash = ''h6'', TimeStamp = ''1690000000'', From = ''0xC'', To = ''0xA'',
      Value = ''500000000000000000'', IsError = ''0''\<rparr>"

definition record_7 :: Transaction where
  "record_7 =
     \<lparr>Transaction.Hash = ''h7'', TimeStamp = ''1690000000'', From = ''0xA'', To = ''0xB'',
      Value = ''500000000000000000'', IsError = []\<rparr>"

definition transfer_1 :: TokenTransfer where
  "transfer_1 =
     \<lparr>TokenTransfer.Hash = ''h7'', TimeStamp = ''1690000000'', From = ''0xA'', To = ''0xB'',
      Value = ''500000000000000000'', TokenName = ''Token'', TokenSymbol = ''TKN''\<rparr>"

definition transfer_2 :: TokenTransfer where
  "transfer_2 =
     \<lparr>TokenTransfer.Hash = ''h8'', TimeStamp = ''1690000000'', From = ''0xC'', To = ''0xA'',
      Value = ''500000000000000000'', TokenName = ''Token'', TokenSymbol = ''TKN''\<rparr>"

text \<open>
  The \<^verbatim>\<open>float64\<close> of \<open>10^-16\<close>, the amount of 100 Wei, and of twice that; one and a half;
  and the successor of one, \<open>1 + 2^-52\<close>.
\<close>

definition hundred_wei :: float64 where
  "hundred_wei = Finite False 8112963841460668 (- 106)"

definition two_hundred_wei :: float64 where
  "two_hundred_wei = Finite False 8112963841460668 (- 105)"

definition one_and_a_half :: float64 where
  "one_and_a_half = Finite False 6755399441055744 (- 52)"

definition after_one :: float64 where
  "after_one = Finite False 4503599627370497 (- 52)"

text \<open>The details and the aggregates these records lead to.\<close>

definition details_1 :: TransactionDetails where
  "details_1 =
     \<lparr>TxAmount = float64_one, DateTime = ''2023-07-22 04:26:40'', TransactionID = ''h1''\<rparr>"

definition details_2 :: TransactionDetails where
  "details_2 =
     \<lparr>TxAmount = hundred_wei, DateTime = ''2023-07-22 04:26:40'', TransactionID = ''h2''\<rparr>"

definition details_3 :: TransactionDetails where
  "details_3 =
     \<lparr>TxAmount = hundred_wei, DateTime = ''2023-07-22 04:26:40'', TransactionID = ''h3''\<rparr>"

definition details_4 :: TransactionDetails where
  "details_4 =
     \<lparr>TxAmount = hundred_wei, DateTime = ''2023-07-22 04:26:40'', TransactionID = ''h4''\<rparr>"

definition details_6 :: TransactionDetails where
  "details_6 =
     \<lparr>TxAmount = float64_half, DateTime = ''2023-07-22 04:26:40'', TransactionID = ''h6''\<rparr>"

definition details_7 :: TransactionDetails where
  "details_7 =
     \<lparr>TxAmount = float64_half, DateTime = ''2023-07-22 04:26:40'', TransactionID = ''h7''\<rparr>"

definition details_8 :: TransactionDetails where
  "details_8 =
     \<lparr>TxAmount = float64_half, DateTime = ''2023-07-22 04:26:40'', TransactionID = ''h8''\<rparr>"

definition aggregate_B :: Beneficiary where
  "aggregate_B =
     \<lparr>Address = ''0xB'', Amount = float64_one, Transactions = [details_1, details_2]\<rparr>"

definition aggregate_C :: Beneficiary where
  "aggregate_C =
     \<lparr>Address = ''0xC'', Amount = two_hundred_wei, Transactions = [details_3, details_4]\<rparr>"

definition aggregate_B_all :: Beneficiary where
  "aggregate_B_all =
     \<lparr>Address = ''0xB'', Amount = one_and_a_half,
      Transactions = [details_1, details_2, details_7]\<rparr>"

definition payer_C :: Payer where
  "payer_C =
     \<lparr>Address = ''0xC'', Amount = float64_one, Transactions = [details_6, details_8]\<rparr>"

definition transfer_B :: Beneficiary where
  "transfer_B = \<lparr>Address = ''0xB'', Amount = float64_half, Transactions = [details_7]\<rparr>"

text \<open>
  Bodies: the provider's answer \<^verbatim>\<open>{"status":"0","message":"No transactions found","result":[]}\<close>
  and an answer of the token endpoint that carries \<open>transfer_1\<close>.
\<close>

definition no_records_body :: body where
  "no_records_body =
     \<lparr>as_TransactionResponse =
        Inr \<lparr>TransactionResponse.Status = ''0'', Message = ''No transactions found'',
             Result = []\<rparr>,
      as_TokenTransferResponse =
        Inr \<lparr>TokenTransferResponse.Status = ''0'', Message = ''No transactions found'',
             Result = []\<rparr>,
      as_errorResult = Inl (New ''json: cannot unmarshal array into Go value of type string'')\<rparr>"

definition transfers_body :: body where
  "transfers_body =
     \<lparr>as_TransactionResponse =
        Inr \<lparr>TransactionResponse.Status = ''1'', Message = ''OK'',
             Result = [record_7]\<rparr>,
      as_TokenTransferResponse =
        Inr \<lparr>TokenTransferResponse.Status = ''1'', Message = ''OK'', Result = [transfer_1]\<rparr>,
      as_errorResult = Inl (New ''json: cannot unmarshal array into Go value of type string'')\<rparr>"

text \<open>Networks: one that has no records for anybody; one whose every endpoint fails in
  the transport once and answers from the second request on; one whose every endpoint
  answers with \<open>transfer_1\<close>; one where the endpoint of the normal transactions of \<open>0xa\<close>
  is down and the token endpoint answers with \<open>transfer_1\<close>; and one where the first of
  the two fails in the transport once only.\<close>

definition quiet_net :: network where
  "quiet_net = (\<lambda>url k. Body no_records_body)"

definition flaky_net :: network where
  "flaky_net =
     (\<lambda>url k. if k = 0 then GetError (New ''connection reset by peer'')
               else Body no_records_body)"

definition busy_net :: network where
  "busy_net = (\<lambda>url k. Body transfers_body)"

definition normal_down_net :: network where
  "normal_down_net =
     (\<lambda>url k. if url = endpoint example_client ''txlist'' ''0xa''
               then GetError (New ''connection refused'')
               else if url = endpoint example_client ''tokentx'' ''0xa''
               then Body transfers_body
               else Body no_records_body)"

definition normal_flaky_net :: network where
  "normal_flaky_net =
     (\<lambda>url k. if url = endpoint example_client ''txlist'' ''0xa''
               then if k = 0 then GetError (New ''connection reset by peer'')
                    else Body no_records_body
               else if url = endpoint example_client ''tokentx'' ''0xa''
               then Body transfers_body
               else Body no_records_body)"

section \<open>Lemmas\<close>

lemma first_occurrences_snoc:
  "first_occurrences (xs @ [x]) =
     (if x \<in> set xs then first_occurrences xs else first_occurrences xs @ [x])"
  by (simp add: first_occurrences_def)

lemma set_first_occurrences [simp]: "set (first_occurrences xs) = set xs"
  by (simp add: first_occurrences_def)

lemma distinct_first_occurrences [simp]: "distinct (first_occurrences xs)"
  by (simp add: first_occurrences_def)

lemma first_occurrences_Nil [simp]: "first_occurrences [] = []"
  by (simp add: first_occurrences_def)

lemma map_of_tabulate:
  "map_of (map (\<lambda>k. (k, f k)) ks) k = (if k \<in> set ks then Some (f k) else None)"
  by (induction ks) auto

lemma update_tabulate:
  "k \<in> set ks \<Longrightarrow> distinct ks \<Longrightarrow>
   AList.update k v (map (\<lambda>k'. (k', f k')) ks) = map (\<lambda>k'. (k', if k' = k then v else f k')) ks"
  by (induction ks) auto

lemma details_for_snoc:
  "details_for rt (cs @ [(k, v, h, ts)]) k' =
     (if k' = k then details_for rt cs k' @ [txDetails_of rt v h ts] else details_for rt cs k')"
  by (simp add: details_for_def)

lemma details_for_empty_iff: "details_for rt cs k = [] \<longleftrightarrow> k \<notin> fst ` set cs"
  by (auto simp: details_for_def filter_empty_conv)

lemma running_total_snoc:
  "ds \<noteq> [] \<Longrightarrow> running_total (ds @ [d]) = float64_add (running_total ds) (TxAmount d)"
  by (cases ds) (simp_all add: running_total_def)

lemma running_total_single [simp]: "running_total [d] = TxAmount d"
  by (simp add: running_total_def)

lemma grouped_snoc:
  "grouped rt (cs @ [(k, v, h, ts)]) = processBeneficiary rt (grouped rt cs) k v h ts"
  by (simp add: grouped_def)

lemma grouped_eq:
  "grouped rt cs = map (\<lambda>k. (k, entry_of rt cs k)) (first_occurrences (map fst cs))"
proof (induction cs rule: rev_induct)
  case Nil
  show ?case by (simp add: grouped_def)
next
  case (snoc c cs)
  obtain k v h ts where c: "c = (k, v, h, ts)" by (cases c) auto
  show ?case
  proof (cases "k \<in> fst ` set cs")
    case True
    then have ne: "details_for rt cs k \<noteq> []" by (simp add: details_for_empty_iff)
    have upd: "(entry_of rt cs k)\<lparr>Amount := float64_add (Amount (entry_of rt cs k))
                   (TxAmount (txDetails_of rt v h ts)),
                 Transactions := Transactions (entry_of rt cs k) @ [txDetails_of rt v h ts]\<rparr>
               = entry_of rt (cs @ [c]) k"
      using ne by (simp add: entry_of_def c details_for_snoc running_total_snoc)
    have other: "\<And>k'. k' \<noteq> k \<Longrightarrow> entry_of rt (cs @ [c]) k' = entry_of rt cs k'"
      by (simp add: entry_of_def c details_for_snoc)
    have "grouped rt (cs @ [c]) =
            AList.update k (entry_of rt (cs @ [c]) k)
              (map (\<lambda>k. (k, entry_of rt cs k)) (first_occurrences (map fst cs)))"
      using True upd by (simp add: c grouped_snoc processBeneficiary_def snoc.IH map_of_tabulate Let_def)
    also have "\<dots> = map (\<lambda>k'. (k', if k' = k then entry_of rt (cs @ [c]) k else entry_of rt cs k'))
                      (first_occurrences (map fst cs))"
      using True by (intro update_tabulate) simp_all
    also have "\<dots> = map (\<lambda>k'. (k', entry_of rt (cs @ [c]) k')) (first_occurrences (map fst cs))"
      using other by (intro map_cong) auto
    finally show ?thesis using True by (simp add: c first_occurrences_snoc)
  next
    case False
    then have emp: "details_for rt cs k = []" by (simp add: details_for_empty_iff)
    have new: "\<lparr>Address = k, Amount = TxAmount (txDetails_of rt v h ts),
                Transactions = [txDetails_of rt v h ts]\<rparr> = entry_of rt (cs @ [c]) k"
      using emp by (simp add: entry_of_def c details_for_snoc)
    have other: "\<And>k'. k' \<noteq> k \<Longrightarrow> entry_of rt (cs @ [c]) k' = entry_of rt cs k'"
      by (simp add: entry_of_def c details_for_snoc)
    have "grouped rt (cs @ [c]) =
            map (\<lambda>k. (k, entry_of rt cs k)) (first_occurrences (map fst cs))
            @ [(k, entry_of rt (cs @ [c]) k)]"
      using False new by (simp add: c grouped_snoc processBeneficiary_def snoc.IH map_of_tabulate Let_def)
    also have "map (\<lambda>k. (k, entry_of rt cs k)) (first_occurrences (map fst cs))
               = map (\<lambda>k'. (k', entry_of rt (cs @ [c]) k')) (first_occurrences (map fst cs))"
    proof (intro map_cong refl)
      fix k' assume "k' \<in> set (first_occurrences (map fst cs))"
      then have "k' \<noteq> k" using False by auto
      then show "(k', entry_of rt cs k') = (k', entry_of rt (cs @ [c]) k')"
        by (simp add: other)
    qed
    finally show ?thesis using False by (simp add: c first_occurrences_snoc)
  qed
qed

lemma processPayer_eq: "processPayer = processBeneficiary"
  by (intro ext) (simp add: processPayer_def processBeneficiary_def)

lemma foldl_filter_map:
  "foldl (\<lambda>m x. if P x then f m (g x) else m) m xs = foldl f m (map g (filter P xs))"
  by (induction xs arbitrary: m) simp_all

lemma AnalyzeBeneficiary_map_grouped:
  "AnalyzeBeneficiary_map rt address n i t = grouped rt (beneficiary_calls rt address n i t)"
proof -
  let ?f = "\<lambda>m (k, v, h, ts). processBeneficiary rt m k v h ts"
  have a: "(\<lambda>m tx. if outgoing_tx rt address tx
              then processBeneficiary rt m (Transaction.To tx) (Transaction.Value tx)
                     (Transaction.Hash tx) (Transaction.TimeStamp tx) else m)
           = (\<lambda>m tx. if outgoing_tx rt address tx then ?f m (tx_out tx) else m)"
    by (intro ext) (simp add: tx_out_def)
  have b: "(\<lambda>m tr. if outgoing_transfer rt address tr
              then processBeneficiary rt m (TokenTransfer.To tr) (TokenTransfer.Value tr)
                     (TokenTransfer.Hash tr) (TokenTransfer.TimeStamp tr) else m)
           = (\<lambda>m tr. if outgoing_transfer rt address tr then ?f m (transfer_out tr) else m)"
    by (intro ext) (simp add: transfer_out_def)
  show ?thesis
    unfolding AnalyzeBeneficiary_map_def Let_def a b
      foldl_filter_map [where f = ?f and g = tx_out]
      foldl_filter_map [where f = ?f and g = transfer_out]
    by (simp add: grouped_def beneficiary_calls_def)
qed

lemma AnalyzePayer_map_grouped:
  "AnalyzePayer_map rt address n i t = grouped rt (payer_calls rt address n i t)"
proof -
  let ?f = "\<lambda>m (k, v, h, ts). processBeneficiary rt m k v h ts"
  have a: "(\<lambda>m tx. if incoming_tx rt address tx
              then processPayer rt m (Transaction.From tx) (Transaction.Value tx)
                     (Transaction.Hash tx) (Transaction.TimeStamp tx) else m)
           = (\<lambda>m tx. if incoming_tx rt address tx then ?f m (tx_in tx) else m)"
    by (intro ext) (simp add: tx_in_def processPayer_eq)
  have b: "(\<lambda>m tr. if incoming_transfer rt address tr
              then processPayer rt m (TokenTransfer.From tr) (TokenTransfer.Value tr)
                     (TokenTransfer.Hash tr) (TokenTransfer.TimeStamp tr) else m)
           = (\<lambda>m tr. if incoming_transfer rt address tr then ?f m (transfer_in tr) else m)"
    by (intro ext) (simp add: transfer_in_def processPayer_eq)
  show ?thesis
    unfolding AnalyzePayer_map_def Let_def a b
      foldl_filter_map [where f = ?f and g = tx_in]
      foldl_filter_map [where f = ?f and g = transfer_in]
    by (simp add: grouped_def payer_calls_def)
qed

text \<open>What a slice that ranges over a grouped map holds.\<close>

lemma range_grouped:
  "range_values (grouped rt cs) vs \<longleftrightarrow>
     mset vs = mset (map (entry_of rt cs) (first_occurrences (map fst cs)))"
  by (simp add: range_values_def grouped_eq comp_def)

lemma range_grouped_set:
  assumes "range_values (grouped rt cs) vs"
  shows "set vs = entry_of rt cs ` fst ` set cs"
proof -
  have "set_mset (mset vs) = set_mset (mset (map (entry_of rt cs) (first_occurrences (map fst cs))))"
    using assms by (simp only: range_grouped)
  then show ?thesis by simp
qed

lemma range_grouped_addresses:
  assumes "range_values (grouped rt cs) vs"
  shows "mset (map Address vs) = mset (first_occurrences (map fst cs))"
proof -
  have "mset (map Address vs) = image_mset Address (mset vs)" by simp
  also have "\<dots> = image_mset Address (mset (map (entry_of rt cs) (first_occurrences (map fst cs))))"
    using assms by (simp only: range_grouped)
  also have "\<dots> = mset (first_occurrences (map fst cs))"
    by (simp add: entry_of_def comp_def multiset.map_comp)
  finally show ?thesis .
qed

lemma range_grouped_distinct:
  assumes "range_values (grouped rt cs) vs"
  shows "distinct (map Address vs)"
proof -
  have "mset (map Address vs) = mset (first_occurrences (map fst cs))"
    using assms by (rule range_grouped_addresses)
  then show ?thesis
    by (metis distinct_first_occurrences mset_eq_imp_distinct_iff)
qed

lemma of_char_ascii_lower:
  "(of_char (ascii_lower c) :: nat) =
     (if 65 \<le> (of_char c :: nat) \<and> (of_char c :: nat) \<le> 90 then of_char c + 32 else of_char c)"
  by (simp add: ascii_lower_def)

lemma ascii_lower_eq_iff:
  "ascii_lower c = ascii_lower d \<longleftrightarrow>
     c = d \<or> (65 \<le> min (of_char c :: nat) (of_char d) \<and> min (of_char c :: nat) (of_char d) \<le> 90
              \<and> max (of_char c :: nat) (of_char d) = min (of_char c) (of_char d) + 32)"
proof -
  have "ascii_lower c = ascii_lower d \<longleftrightarrow>
          (of_char (ascii_lower c) :: nat) = of_char (ascii_lower d)"
    by simp
  moreover have "c = d \<longleftrightarrow> (of_char c :: nat) = of_char d"
    by simp
  ultimately show ?thesis
    unfolding of_char_ascii_lower by (auto simp: min_def max_def split: if_splits)
qed

lemma EqualFold_Cons_ascii:
  assumes "(of_char sr :: nat) < 128" and "(of_char tr :: nat) < 128"
  shows "EqualFold u (sr # s) (tr # t) = (ascii_lower sr = ascii_lower tr \<and> EqualFold u s t)"
proof (cases "tr = sr")
  case True
  then show ?thesis using assms by simp
next
  case False
  then have ne: "sr \<noteq> tr" by simp
  show ?thesis
    using assms False unfolding ascii_lower_eq_iff [of sr tr]
    by (auto simp: ne)
qed

lemma EqualFold_ascii:
  "is_ascii s \<Longrightarrow> is_ascii t \<Longrightarrow>
   EqualFold u s t \<longleftrightarrow> map ascii_lower s = map ascii_lower t"
proof (induction s arbitrary: t)
  case Nil
  then show ?case by (cases t) simp_all
next
  case (Cons sr s)
  show ?case
  proof (cases t)
    case Nil
    then show ?thesis by simp
  next
    case (Cons tr t')
    with Cons.prems have "(of_char sr :: nat) < 128" "(of_char tr :: nat) < 128"
      "is_ascii s" "is_ascii t'"
      by (simp_all add: is_ascii_def)
    then show ?thesis
      using Cons.IH [of t'] Cons by (simp add: EqualFold_Cons_ascii del: EqualFold.simps)
  qed
qed

lemma entry_of_simps [simp]:
  "Address (entry_of rt cs k) = k"
  "Transactions (entry_of rt cs k) = details_for rt cs k"
  "Amount (entry_of rt cs k) = running_total (details_for rt cs k)"
  by (simp_all add: entry_of_def)

lemma range_grouped_address_set:
  assumes "range_values (grouped rt cs) vs"
  shows "Address ` set vs = fst ` set cs"
  using range_grouped_set [OF assms] by (simp add: image_image)

lemma fst_call [simp]:
  "fst (tx_out tx) = Transaction.To tx"
  "fst (transfer_out tr) = TokenTransfer.To tr"
  "fst (tx_in tx) = Transaction.From tx"
  "fst (transfer_in tr) = TokenTransfer.From tr"
  by (simp_all add: tx_out_def transfer_out_def tx_in_def transfer_in_def)

lemma beneficiary_calls_key_set:
  "fst ` set (beneficiary_calls rt a n i t) =
     Transaction.To ` {tx \<in> set n \<union> set i. outgoing_tx rt a tx}
     \<union> TokenTransfer.To ` {tr \<in> set t. outgoing_transfer rt a tr}"
  by (auto simp: beneficiary_calls_def image_Un image_image)

lemma payer_calls_key_set:
  "fst ` set (payer_calls rt a n i t) =
     Transaction.From ` {tx \<in> set n \<union> set i. incoming_tx rt a tx}
     \<union> TokenTransfer.From ` {tr \<in> set t. incoming_transfer rt a tr}"
  by (auto simp: payer_calls_def image_Un image_image)

lemma beneficiary_calls_keys:
  "k \<in> fst ` set (beneficiary_calls rt a n i t) \<longleftrightarrow>
     (\<exists>tx\<in>set n \<union> set i. outgoing_tx rt a tx \<and> Transaction.To tx = k)
     \<or> (\<exists>tr\<in>set t. outgoing_transfer rt a tr \<and> TokenTransfer.To tr = k)"
  unfolding beneficiary_calls_key_set by blast

lemma payer_calls_keys:
  "k \<in> fst ` set (payer_calls rt a n i t) \<longleftrightarrow>
     (\<exists>tx\<in>set n \<union> set i. incoming_tx rt a tx \<and> Transaction.From tx = k)
     \<or> (\<exists>tr\<in>set t. incoming_transfer rt a tr \<and> TokenTransfer.From tr = k)"
  unfolding payer_calls_key_set by blast

lemma details_for_call_details:
  "details_for rt cs k = map (call_details rt) (filter (\<lambda>c. fst c = k) cs)"
  by (simp add: details_for_def call_details_def case_prod_beta)

lemma partition_by_key:
  "distinct ks \<Longrightarrow> \<forall>c\<in>#M. fst c \<in> set ks \<Longrightarrow>
   (\<Sum>k\<leftarrow>ks. filter_mset (\<lambda>c. fst c = k) M) = M"
proof (induction ks arbitrary: M)
  case Nil
  then show ?case by (cases "M = {#}") auto
next
  case (Cons k ks)
  let ?rest = "filter_mset (\<lambda>c. fst c \<noteq> k) M"
  have same: "filter_mset (\<lambda>c. fst c = k') ?rest = filter_mset (\<lambda>c. fst c = k') M"
    if "k' \<in> set ks" for k'
  proof -
    from that Cons.prems(1) have "k' \<noteq> k" by auto
    then have "(\<lambda>c::'a \<times> 'b. fst c \<noteq> k \<and> fst c = k') = (\<lambda>c. fst c = k')" by auto
    then show ?thesis by (simp add: filter_filter_mset)
  qed
  have "(\<Sum>k'\<leftarrow>ks. filter_mset (\<lambda>c. fst c = k') M) = (\<Sum>k'\<leftarrow>ks. filter_mset (\<lambda>c. fst c = k') ?rest)"
    using same by (intro arg_cong [where f = sum_list] map_cong refl) simp
  also have "\<dots> = ?rest"
    using Cons.prems by (intro Cons.IH) auto
  finally have "(\<Sum>k'\<leftarrow>k # ks. filter_mset (\<lambda>c. fst c = k') M)
                 = filter_mset (\<lambda>c. fst c = k) M + ?rest"
    by simp
  then show ?case by simp
qed

lemma image_mset_sum_list:
  "(\<Sum>k\<leftarrow>ks. image_mset f (g k)) = image_mset f (\<Sum>k\<leftarrow>ks. g k)"
  by (induction ks) simp_all

lemma all_details_grouped:
  assumes "range_values (grouped rt cs) vs"
  shows "mset (concat (map Transactions vs)) = mset (map (call_details rt) cs)"
proof -
  let ?ks = "first_occurrences (map fst cs)"
  have "mset (concat (map Transactions vs)) = (\<Sum>b\<in>#mset vs. mset (Transactions b))"
    by (induction vs) simp_all
  also have "\<dots> = (\<Sum>b\<in>#mset (map (entry_of rt cs) ?ks). mset (Transactions b))"
    using assms by (simp only: range_grouped)
  also have "\<dots> = (\<Sum>k\<in>#mset ?ks. mset (details_for rt cs k))"
    by (simp add: multiset.map_comp comp_def)
  also have "\<dots> = (\<Sum>k\<leftarrow>?ks. mset (details_for rt cs k))"
    by (simp only: sum_mset_sum_list [symmetric] mset_map)
  also have "\<dots> = (\<Sum>k\<leftarrow>?ks. image_mset (call_details rt) (filter_mset (\<lambda>c. fst c = k) (mset cs)))"
    by (simp add: details_for_call_details)
  also have "\<dots> = image_mset (call_details rt) (\<Sum>k\<leftarrow>?ks. filter_mset (\<lambda>c. fst c = k) (mset cs))"
    by (rule image_mset_sum_list)
  also have "(\<Sum>k\<leftarrow>?ks. filter_mset (\<lambda>c. fst c = k) (mset cs)) = mset cs"
    by (intro partition_by_key) auto
  finally show ?thesis by simp
qed

lemma totals_grouped:
  assumes "range_values (grouped rt cs) vs" and "b \<in> set vs"
  shows "Transactions b \<noteq> [] \<and> Amount b = running_total (Transactions b)"
proof -
  from assms obtain k where "k \<in> fst ` set cs" and "b = entry_of rt cs k"
    using range_grouped_set by blast
  then show ?thesis by (simp add: details_for_empty_iff)
qed

lemma encounter_order_grouped:
  assumes "range_values (grouped rt cs) vs" and "b \<in> set vs"
  shows "Transactions b = map (call_details rt) (filter (\<lambda>c. fst c = Address b) cs)"
proof -
  from assms obtain k where "k \<in> fst ` set cs" and "b = entry_of rt cs k"
    using range_grouped_set by blast
  then show ?thesis by (simp add: details_for_call_details)
qed

lemma beneficiary_calls_ok:
  "beneficiary_calls rt a (filter (\<lambda>tx. IsError tx = ''0'') n) (filter (\<lambda>tx. IsError tx = ''0'') i) t
   = beneficiary_calls rt a n i t"
proof -
  have "\<And>xs. filter (outgoing_tx rt a) (filter (\<lambda>tx. IsError tx = ''0'') xs) = filter (outgoing_tx rt a) xs"
    by (auto simp: outgoing_tx_def intro!: filter_cong)
  then show ?thesis by (simp add: beneficiary_calls_def)
qed

lemma payer_calls_ok:
  "payer_calls rt a (filter (\<lambda>tx. IsError tx = ''0'') n) (filter (\<lambda>tx. IsError tx = ''0'') i) t
   = payer_calls rt a n i t"
proof -
  have "\<And>xs. filter (incoming_tx rt a) (filter (\<lambda>tx. IsError tx = ''0'') xs) = filter (incoming_tx rt a) xs"
    by (auto simp: incoming_tx_def intro!: filter_cong)
  then show ?thesis by (simp add: payer_calls_def)
qed

lemma contributes_grouped:
  assumes "range_values (grouped rt cs) vs" and "c \<in> set cs"
  shows "\<exists>b\<in>set vs. Address b = fst c \<and> call_details rt c \<in> set (Transactions b)"
proof -
  have "entry_of rt cs (fst c) \<in> set vs"
    using assms range_grouped_set by blast
  moreover have "call_details rt c \<in> set (details_for rt cs (fst c))"
    using assms(2) by (simp add: details_for_call_details)
  ultimately show ?thesis
    by (intro bexI [of _ "entry_of rt cs (fst c)"]) simp_all
qed

lemma pc_assign [simp]: "pc (assign c net a g st) = pc st"
  by (simp add: assign_def split: sum.splits)

lemma pc_return_step [simp]: "pc (return_step g st) = pc st"
  by (simp add: return_step_def split: option.splits)

lemma pc_step:
  "pc (step c net a st g) =
     (if g < 3 \<and> pc st g < 2 then (pc st)(g := Suc (pc st g)) else pc st)"
  by (auto simp: step_def)

lemma pc_Wait:
  "1 \<le> pc (foldl (step c net a) st [0, 0, 1, 1, 2, 2]) 0"
  "1 \<le> pc (foldl (step c net a) st [0, 0, 1, 1, 2, 2]) 1"
  "1 \<le> pc (foldl (step c net a) st [0, 0, 1, 1, 2, 2]) 2"
  by (auto simp: pc_step)

lemma all_fetched_step:
  assumes "fst (GetNormalTransactions c net a) = Inr n"
    and "fst (GetInternalTransactions c net a) = Inr i"
    and "fst (GetTokenTransfers c net a) = Inr t"
    and "all_fetched n i t st"
  shows "all_fetched n i t (step c net a st g)"
proof -
  consider "3 \<le> g" | "g = 0" | "g = 1" | "g = 2" by linarith
  then show ?thesis
    using assms by cases (auto simp: all_fetched_def step_def assign_def return_step_def)
qed

lemma all_fetched_foldl:
  assumes "fst (GetNormalTransactions c net a) = Inr n"
    and "fst (GetInternalTransactions c net a) = Inr i"
    and "fst (GetTokenTransfers c net a) = Inr t"
  shows "all_fetched n i t st \<Longrightarrow> all_fetched n i t (foldl (step c net a) st gs)"
  by (induction gs arbitrary: st) (simp_all add: all_fetched_step [OF assms])

lemma Wait_all_fetched:
  assumes "fst (GetNormalTransactions c net a) = Inr n"
    and "fst (GetInternalTransactions c net a) = Inr i"
    and "fst (GetTokenTransfers c net a) = Inr t"
  shows "group_err (Wait c net sched a) = None
         \<and> normalTxs (Wait c net sched a) = n
         \<and> internalTxs (Wait c net sched a) = i
         \<and> tokenTransfers (Wait c net sched a) = t"
proof -
  let ?st = "foldl (step c net a) fetches_init sched"
  have w: "Wait c net sched a = foldl (step c net a) ?st [0, 0, 1, 1, 2, 2]"
    by (simp add: Wait_def)
  have "all_fetched n i t fetches_init"
    by (simp add: all_fetched_def fetches_init_def)
  then have "all_fetched n i t ?st"
    by (rule all_fetched_foldl [OF assms])
  then have "all_fetched n i t (Wait c net sched a)"
    unfolding w by (rule all_fetched_foldl [OF assms])
  moreover have "1 \<le> pc (Wait c net sched a) 0" "1 \<le> pc (Wait c net sched a) 1"
    "1 \<le> pc (Wait c net sched a) 2"
    unfolding w by (rule pc_Wait)+
  ultimately show ?thesis by (simp add: all_fetched_def)
qed

lemma analysis_of_fetched:
  assumes "fst (GetNormalTransactions c net a) = Inr n"
    and "fst (GetInternalTransactions c net a) = Inr i"
    and "fst (GetTokenTransfers c net a) = Inr t"
  shows "AnalyzeBeneficiary c net rt sched a ret \<longleftrightarrow>
           (\<exists>bs. ret = (Some bs, None) \<and> AnalyzeBeneficiary_aggregate rt a n i t bs)"
    and "AnalyzePayer c net rt sched a ret \<longleftrightarrow>
           (\<exists>ps. ret = (Some ps, None) \<and> AnalyzePayer_aggregate rt a n i t ps)"
  using Wait_all_fetched [OF assms, of sched]
  by (auto simp: AnalyzeBeneficiary_def AnalyzePayer_def Let_def split: option.splits prod.splits)

lemma retry_loop_at_2:
  "retry_loop get 3 2 p tr =
     (case get 2 of
        GetError e \<Rightarrow> (Some (GetError e), tr @ [Sleep 4, Request])
      | ReadError e \<Rightarrow> (Some (ReadError e), tr @ [Sleep 4, Request])
      | Body b \<Rightarrow> (Some (Body b), tr @ [Sleep 4, Request]))"
  by (subst retry_loop.simps) (simp add: retry_loop.simps split: reply.splits)

lemma retry_loop_at_1:
  "retry_loop get 3 (Suc 0) p tr =
     (case get 1 of
        GetError e \<Rightarrow> retry_loop get 3 2 (Some (GetError e)) (tr @ [Sleep 1, Request])
      | ReadError e \<Rightarrow> (Some (ReadError e), tr @ [Sleep 1, Request])
      | Body b \<Rightarrow> (Some (Body b), tr @ [Sleep 1, Request]))"
  by (subst retry_loop.simps) (simp add: numeral_2_eq_2 split: reply.splits)

lemma retry_loop_at_0:
  "retry_loop get 3 0 p tr =
     (case get 0 of
        GetError e \<Rightarrow> retry_loop get 3 (Suc 0) (Some (GetError e)) (tr @ [Request])
      | ReadError e \<Rightarrow> (Some (ReadError e), tr @ [Request])
      | Body b \<Rightarrow> (Some (Body b), tr @ [Request]))"
  by (subst retry_loop.simps) (simp split: reply.splits)

lemma retry_loop_3:
  "retry_loop get 3 0 None [] =
     (case get 0 of
        GetError e0 \<Rightarrow>
          (case get 1 of
             GetError e1 \<Rightarrow>
               (case get 2 of
                  GetError e2 \<Rightarrow>
                    (Some (GetError e2), [Request, Sleep 1, Request, Sleep 4, Request])
                | ReadError e2 \<Rightarrow>
                    (Some (ReadError e2), [Request, Sleep 1, Request, Sleep 4, Request])
                | Body b \<Rightarrow> (Some (Body b), [Request, Sleep 1, Request, Sleep 4, Request]))
           | ReadError e1 \<Rightarrow> (Some (ReadError e1), [Request, Sleep 1, Request])
           | Body b \<Rightarrow> (Some (Body b), [Request, Sleep 1, Request]))
      | ReadError e0 \<Rightarrow> (Some (ReadError e0), [Request])
      | Body b \<Rightarrow> (Some (Body b), [Request]))"
  by (simp add: retry_loop_at_0 retry_loop_at_1 retry_loop_at_2 split: reply.splits)

lemma fetchTransactions_first_answer:
  assumes "k < 3" and "\<forall>j<k. \<exists>e. get j = GetError e" and "get k = Body b"
  shows "fst (fetchTransactions get) = decode_transactions b"
proof -
  consider "k = 0" | "k = 1" | "k = 2" using assms(1) by linarith
  then show ?thesis
  proof cases
    case 1
    then show ?thesis using assms by (simp add: fetchTransactions_def retry_loop_3)
  next
    case 2
    then obtain e0 where "get 0 = GetError e0" using assms(2) by auto
    then show ?thesis using assms 2 by (simp add: fetchTransactions_def retry_loop_3)
  next
    case 3
    then obtain e0 e1 where "get 0 = GetError e0" "get 1 = GetError e1"
      using assms(2) by (metis One_nat_def lessI less_2_cases_iff zero_less_numeral)
    then show ?thesis using assms 3 by (simp add: fetchTransactions_def retry_loop_3)
  qed
qed

lemma range_values_Nil [simp]: "range_values [] vs \<longleftrightarrow> vs = []"
  by (simp add: range_values_def)

lemma grouped_Nil [simp]: "grouped rt [] = []"
  by (simp add: grouped_def)

lemma same_head_Nil [simp]: "same_head r []" "same_head [] t \<longleftrightarrow> t = []"
  by (auto simp: same_head_def)

lemma same_head_Cons: "same_head (ch # r) t \<longleftrightarrow> t = [] \<or> (\<exists>t'. t = ch # t')"
  by (cases t) (auto simp: same_head_def)

lemma scan_digits_prefix:
  "scan_digits b fracOk prev invalSep cnt z dp s = (M, r) \<Longrightarrow>
     \<exists>q. s = q @ r
       \<and> (\<forall>t. same_head r t \<longrightarrow> scan_digits b fracOk prev invalSep cnt z dp (q @ t) = (M, t))"
proof (induction s arbitrary: fracOk prev invalSep cnt z dp)
  case Nil
  then show ?case by auto
next
  case (Cons ch s)
  show ?case
  proof (cases "b \<le> digit_of ch \<and> ch \<noteq> CHR ''_'' \<and> \<not> (ch = CHR ''.'' \<and> fracOk)")
    case True
    then have stop: "scan_digits b fracOk prev invalSep cnt z dp (ch # x)
                       = (end_of_mantissa b prev invalSep cnt z dp, ch # x)" for x
      by auto
    then have r: "r = ch # s" and M: "M = end_of_mantissa b prev invalSep cnt z dp"
      using Cons.prems by simp_all
    have "scan_digits b fracOk prev invalSep cnt z dp t = (M, t)" if "same_head r t" for t
      using that unfolding r same_head_Cons by (auto simp: stop M simp del: scan_digits.simps(2))
    then show ?thesis
      using r by (intro exI [of _ "[]"]) simp
  next
    case False
    then obtain fracOk' prev' invalSep' cnt' z' dp'
      where step: "\<And>x. scan_digits b fracOk prev invalSep cnt z dp (ch # x)
                        = scan_digits b fracOk' prev' invalSep' cnt' z' dp' x"
      by (cases "ch = CHR ''.'' \<and> fracOk"; cases "ch = CHR ''_''") auto
    then have "scan_digits b fracOk' prev' invalSep' cnt' z' dp' s = (M, r)"
      using Cons.prems by simp
    from Cons.IH [OF this] obtain q where q: "s = q @ r"
      "\<forall>t. same_head r t \<longrightarrow> scan_digits b fracOk' prev' invalSep' cnt' z' dp' (q @ t) = (M, t)"
      by blast
    show ?thesis
      by (rule exI [of _ "ch # q"]) (use q in \<open>simp add: step del: scan_digits.simps\<close>)
  qed
qed

lemma nat_scan_other:
  "s = [] \<or> hd s \<noteq> CHR ''0'' \<Longrightarrow> nat_scan s = scan_digits 10 True Other False 0 0 None s"
  by (cases s rule: nat_scan.cases) (simp_all del: scan_digits.simps)

lemma nat_scan_zero:
  "nat_scan (CHR ''0'' # s) =
     (case s of [] \<Rightarrow> scan_digits 10 True Digit False 1 0 None [] | ch # r \<Rightarrow> after_zero ch r)"
  by (cases s) (simp_all del: scan_digits.simps)

lemma after_zero_cases:
  "(\<exists>b. \<forall>t. after_zero ch t = scan_digits b True Digit False 0 0 None t)
   \<or> (\<forall>t. after_zero ch t = scan_digits 10 True Digit False 1 0 None (ch # t))"
proof (cases "ch \<in> set ''bBoOxX''")
  case False
  then show ?thesis by (simp add: after_zero_def del: scan_digits.simps)
next
  case True
  then consider "ch = CHR ''b'' \<or> ch = CHR ''B''" | "ch = CHR ''o'' \<or> ch = CHR ''O''"
    | "ch = CHR ''x'' \<or> ch = CHR ''X''" by auto
  then show ?thesis
  proof cases
    case 1
    then have "\<forall>t. after_zero ch t = scan_digits 2 True Digit False 0 0 None t"
      by (auto simp: after_zero_def simp del: scan_digits.simps)
    then show ?thesis by blast
  next
    case 2
    then have "\<forall>t. after_zero ch t = scan_digits 8 True Digit False 0 0 None t"
      by (auto simp: after_zero_def simp del: scan_digits.simps)
    then show ?thesis by blast
  next
    case 3
    then have "\<forall>t. after_zero ch t = scan_digits 16 True Digit False 0 0 None t"
      by (auto simp: after_zero_def simp del: scan_digits.simps)
    then show ?thesis by blast
  qed
qed

lemma after_zero_prefix:
  assumes a: "after_zero ch s = (M, r)"
  shows "(\<exists>q. ch # s = q @ r \<and> q \<noteq> []
       \<and> (\<forall>t. same_head r t \<longrightarrow> nat_scan (CHR ''0'' # q @ t) = (M, t)))
     \<or> (r = ch # s \<and> (\<forall>t. same_head r t \<longrightarrow> nat_scan (CHR ''0'' # t) = (M, t)))"
  using after_zero_cases [of ch]
proof
  assume "\<exists>b. \<forall>t. after_zero ch t = scan_digits b True Digit False 0 0 None t"
  then obtain b where b: "\<And>t. after_zero ch t = scan_digits b True Digit False 0 0 None t"
    by blast
  from scan_digits_prefix [of b True Digit False 0 0 None s M r] a b
  obtain q where q: "s = q @ r"
    "\<forall>t. same_head r t \<longrightarrow> scan_digits b True Digit False 0 0 None (q @ t) = (M, t)"
    by auto
  have "\<exists>q'. ch # s = q' @ r \<and> q' \<noteq> []
     \<and> (\<forall>t. same_head r t \<longrightarrow> nat_scan (CHR ''0'' # q' @ t) = (M, t))"
    by (rule exI [of _ "ch # q"]) (use q b in \<open>simp add: nat_scan_zero\<close>)
  then show ?thesis by blast
next
  assume plain: "\<forall>t. after_zero ch t = scan_digits 10 True Digit False 1 0 None (ch # t)"
  from scan_digits_prefix [of 10 True Digit False 1 0 None "ch # s" M r] a plain
  obtain q where q: "ch # s = q @ r"
    "\<forall>t. same_head r t \<longrightarrow> scan_digits 10 True Digit False 1 0 None (q @ t) = (M, t)"
    by auto
  show ?thesis
  proof (cases q)
    case Nil
    then have r: "r = ch # s" using q(1) by simp
    have "nat_scan (CHR ''0'' # t) = (M, t)" if "same_head r t" for t
    proof (cases t)
      case Nil
      then show ?thesis
        using q(2) [rule_format, of "[]"] \<open>q = []\<close> by (simp add: nat_scan_zero)
    next
      case (Cons x t')
      then have "x = ch" using that r by (simp add: same_head_Cons)
      then show ?thesis
        using q(2) [rule_format, OF that] \<open>q = []\<close> Cons plain
        by (simp add: nat_scan_zero del: scan_digits.simps)
    qed
    then show ?thesis using r by blast
  next
    case (Cons x q')
    then have x: "x = ch" using q(1) by simp
    have "nat_scan (CHR ''0'' # q @ t) = (M, t)" if "same_head r t" for t
      using q(2) [rule_format, OF that] Cons x plain
      by (simp add: nat_scan_zero del: scan_digits.simps)
    then have "\<exists>q'. ch # s = q' @ r \<and> q' \<noteq> []
     \<and> (\<forall>t. same_head r t \<longrightarrow> nat_scan (CHR ''0'' # q' @ t) = (M, t))"
      using q(1) Cons by (intro exI [of _ q]) simp
    then show ?thesis by blast
  qed
qed

lemma nat_scan_prefix:
  assumes "nat_scan s = (M, r)"
  shows "\<exists>q. s = q @ r \<and> (\<forall>t. same_head r t \<longrightarrow> nat_scan (q @ t) = (M, t))"
proof (cases "s = [] \<or> hd s \<noteq> CHR ''0''")
  case True
  then have "scan_digits 10 True Other False 0 0 None s = (M, r)"
    using assms by (simp add: nat_scan_other)
  from scan_digits_prefix [OF this] obtain q where q: "s = q @ r"
    "\<forall>t. same_head r t \<longrightarrow> scan_digits 10 True Other False 0 0 None (q @ t) = (M, t)"
    by blast
  have "nat_scan (q @ t) = (M, t)" if "same_head r t" for t
  proof -
    have "q @ t = [] \<or> hd (q @ t) \<noteq> CHR ''0''"
    proof (cases q)
      case Nil
      then show ?thesis using that q(1) True by (auto simp: same_head_def)
    next
      case (Cons x q')
      then show ?thesis using q(1) True by auto
    qed
    then show ?thesis using q(2) that by (simp add: nat_scan_other)
  qed
  with q(1) show ?thesis by blast
next
  case False
  then obtain s' where s: "s = CHR ''0'' # s'" by (cases s) auto
  show ?thesis
  proof (cases s')
    case Nil
    then have "M = fst (scan_digits 10 True Digit False 1 0 None [])" "r = []"
      using assms s by (auto simp: nat_scan_zero)
    then show ?thesis using s Nil assms by (intro exI [of _ s]) auto
  next
    case (Cons ch s'')
    then have "after_zero ch s'' = (M, r)" using assms s by (simp add: nat_scan_zero)
    from after_zero_prefix [OF this] show ?thesis
    proof
      assume "\<exists>q. ch # s'' = q @ r \<and> q \<noteq> []
         \<and> (\<forall>t. same_head r t \<longrightarrow> nat_scan (CHR ''0'' # q @ t) = (M, t))"
      then obtain q where "ch # s'' = q @ r"
        "\<forall>t. same_head r t \<longrightarrow> nat_scan (CHR ''0'' # q @ t) = (M, t)" by blast
      then show ?thesis using s Cons by (intro exI [of _ "CHR ''0'' # q"]) simp
    next
      assume "r = ch # s'' \<and> (\<forall>t. same_head r t \<longrightarrow> nat_scan (CHR ''0'' # t) = (M, t))"
      then show ?thesis using s Cons by (intro exI [of _ "[CHR ''0'']"]) simp
    qed
  qed
qed

lemma scan_exponent_digits_prefix:
  "scan_exponent_digits prev invalSep digits s = (st, r) \<Longrightarrow>
     \<exists>q. s = q @ r
       \<and> (\<forall>t. same_head r t \<longrightarrow> scan_exponent_digits prev invalSep digits (q @ t) = (st, t))"
proof (induction s arbitrary: prev invalSep digits)
  case Nil
  then show ?case by auto
next
  case (Cons ch s)
  show ?case
  proof (cases "is_digit ch \<or> ch = CHR ''_''")
    case False
    then have stop: "scan_exponent_digits prev invalSep digits (ch # x)
                       = ((digits, prev, invalSep), ch # x)" for x
      by auto
    then have r: "r = ch # s" and st: "st = (digits, prev, invalSep)"
      using Cons.prems by simp_all
    have "scan_exponent_digits prev invalSep digits t = (st, t)" if "same_head r t" for t
      using that unfolding r same_head_Cons
      by (auto simp: stop st simp del: scan_exponent_digits.simps(2))
    then show ?thesis
      using r by (intro exI [of _ "[]"]) simp
  next
    case True
    then obtain prev' invalSep' digits'
      where step: "\<And>x. scan_exponent_digits prev invalSep digits (ch # x)
                        = scan_exponent_digits prev' invalSep' digits' x"
      by (cases "is_digit ch") auto
    then have "scan_exponent_digits prev' invalSep' digits' s = (st, r)"
      using Cons.prems by simp
    from Cons.IH [OF this] obtain q where q: "s = q @ r"
      "\<forall>t. same_head r t \<longrightarrow> scan_exponent_digits prev' invalSep' digits' (q @ t) = (st, t)"
      by blast
    show ?thesis
      by (rule exI [of _ "ch # q"])
        (use q in \<open>simp add: step del: scan_exponent_digits.simps\<close>)
  qed
qed

lemma end_of_exponent_rest:
  "end_of_exponent ebase (st, r) = (E, r') \<Longrightarrow>
     r' = r \<and> end_of_exponent ebase (st, t) = (E, t)"
proof -
  obtain digits prev invalSep where st: "st = (digits, prev, invalSep)"
    by (cases st) auto
  assume "end_of_exponent ebase (st, r) = (E, r')"
  then show ?thesis
    unfolding st by (cases "unsigned digits = []") simp_all
qed

lemma digits_then_end:
  assumes "end_of_exponent ebase (scan_exponent_digits prev invalSep digits s) = (E, r)"
  shows "\<exists>q. s = q @ r
       \<and> (\<forall>t. same_head r t \<longrightarrow>
              end_of_exponent ebase (scan_exponent_digits prev invalSep digits (q @ t)) = (E, t))"
proof -
  obtain st r' where d: "scan_exponent_digits prev invalSep digits s = (st, r')"
    by (cases "scan_exponent_digits prev invalSep digits s")
  with assms have "end_of_exponent ebase (st, r') = (E, r)" by simp
  from end_of_exponent_rest [OF this]
  have e: "r' = r" "\<And>t. end_of_exponent ebase (st, t) = (E, t)"
    by simp_all
  from scan_exponent_digits_prefix [OF d] e(1) obtain q where q: "s = q @ r"
    "\<forall>t. same_head r t \<longrightarrow> scan_exponent_digits prev invalSep digits (q @ t) = (st, t)"
    by blast
  show ?thesis
    by (rule exI [of _ q]) (use q e(2) in simp)
qed

lemma scan_exponent_sign_prefix:
  assumes "scan_exponent_sign ebase s = (E, r)"
  shows "\<exists>q. s = q @ r \<and> (\<forall>t. same_head r t \<longrightarrow> scan_exponent_sign ebase (q @ t) = (E, t))"
proof (cases "s \<noteq> [] \<and> (hd s = CHR ''-'' \<or> hd s = CHR ''+'')")
  case True
  then obtain ch s' where s: "s = ch # s'" and ch: "ch = CHR ''-'' \<or> ch = CHR ''+''"
    by (cases s) auto
  then obtain digits where step: "\<And>x. scan_exponent_sign ebase (ch # x)
      = end_of_exponent ebase (scan_exponent_digits Other False digits x)"
    by auto
  then have "end_of_exponent ebase (scan_exponent_digits Other False digits s') = (E, r)"
    using assms s by simp
  from digits_then_end [OF this] obtain q where q: "s' = q @ r"
    "\<forall>t. same_head r t \<longrightarrow>
       end_of_exponent ebase (scan_exponent_digits Other False digits (q @ t)) = (E, t)"
    by blast
  show ?thesis
    by (rule exI [of _ "ch # q"]) (use q s step in \<open>simp del: scan_exponent_sign.simps\<close>)
next
  case False
  then have plain: "scan_exponent_sign ebase s
      = end_of_exponent ebase (scan_exponent_digits Other False [] s)"
    by (cases s) auto
  then have "end_of_exponent ebase (scan_exponent_digits Other False [] s) = (E, r)"
    using assms by simp
  from digits_then_end [OF this] obtain q where q: "s = q @ r"
    "\<forall>t. same_head r t \<longrightarrow>
       end_of_exponent ebase (scan_exponent_digits Other False [] (q @ t)) = (E, t)"
    by blast
  have "scan_exponent_sign ebase (q @ t) = (E, t)" if "same_head r t" for t
  proof -
    have "\<not> (q @ t \<noteq> [] \<and> (hd (q @ t) = CHR ''-'' \<or> hd (q @ t) = CHR ''+''))"
    proof (cases q)
      case Nil
      then show ?thesis using that q(1) False by (auto simp: same_head_def)
    next
      case (Cons x q')
      then show ?thesis using q(1) False by auto
    qed
    then have "scan_exponent_sign ebase (q @ t)
      = end_of_exponent ebase (scan_exponent_digits Other False [] (q @ t))"
      by (cases "q @ t") auto
    then show ?thesis using q(2) that by simp
  qed
  with q(1) show ?thesis by blast
qed

lemma scanExponent_prefix:
  assumes "scanExponent s = (E, r)"
  shows "\<exists>q. s = q @ r \<and> (\<forall>t. same_head r t \<longrightarrow> scanExponent (q @ t) = (E, t))"
proof (cases "s \<noteq> [] \<and> hd s \<in> set ''eEpP''")
  case True
  then obtain ch s' where s: "s = ch # s'" and ch: "ch \<in> set ''eEpP''"
    by (cases s) auto
  then obtain ebase where step: "\<And>x. scanExponent (ch # x) = scan_exponent_sign ebase x"
    by auto
  then have "scan_exponent_sign ebase s' = (E, r)"
    using assms s by simp
  from scan_exponent_sign_prefix [OF this] obtain q where q: "s' = q @ r"
    "\<forall>t. same_head r t \<longrightarrow> scan_exponent_sign ebase (q @ t) = (E, t)"
    by blast
  show ?thesis
    by (rule exI [of _ "ch # q"]) (use q s step in \<open>simp del: scanExponent.simps\<close>)
next
  case False
  have plain: "scanExponent x = (Exponent 0 10 False, x)"
    if "x = [] \<or> hd x = hd s \<and> s \<noteq> []" for x
  proof (cases x)
    case Nil
    then show ?thesis by simp
  next
    case (Cons c x')
    then have "c \<notin> set ''eEpP''" using that False by (cases s) auto
    then show ?thesis using Cons by simp
  qed
  have "scanExponent s = (Exponent 0 10 False, s)"
    by (rule plain) (cases s; simp)
  then have r: "r = s" and E: "E = Exponent 0 10 False"
    using assms by simp_all
  have "scanExponent t = (E, t)" if "same_head r t" for t
    using that plain [of t] unfolding r E by (auto simp: same_head_def)
  then show ?thesis
    using r by (intro exI [of _ "[]"]) simp
qed

lemma sign_split:
  "\<exists>sg. s = sg @ unsigned s \<and> (sg = [] \<or> sg = [hd s] \<and> s \<noteq> [] \<and> (hd s = CHR ''-'' \<or> hd s = CHR ''+''))
        \<and> (sg = [] \<longrightarrow> s = [] \<or> (hd s \<noteq> CHR ''-'' \<and> hd s \<noteq> CHR ''+''))"
  by (cases s) auto

lemma unsigned_prefix:
  assumes "s = sg @ q @ r"
    and "sg = [] \<or> sg = [hd s] \<and> s \<noteq> [] \<and> (hd s = CHR ''-'' \<or> hd s = CHR ''+'')"
    and "sg = [] \<longrightarrow> s = [] \<or> (hd s \<noteq> CHR ''-'' \<and> hd s \<noteq> CHR ''+'')"
  shows "unsigned (sg @ q) = q" and "negative (sg @ q) = negative s"
proof -
  show "unsigned (sg @ q) = q"
  proof (cases "sg = []")
    case True
    then show ?thesis using assms by (cases q) auto
  next
    case False
    then show ?thesis using assms by auto
  qed
  show "negative (sg @ q) = negative s"
  proof (cases "sg = []")
    case True
    then show ?thesis using assms by (cases q; cases s) auto
  next
    case False
    then show ?thesis using assms by (cases s) auto
  qed
qed

lemma with_mantissa_Some:
  assumes "with_mantissa neg (M, r1) = (Some n, rest)"
  shows "\<exists>z b fcount e ebase. M = Mantissa z b fcount False
    \<and> scanExponent r1 = (Exponent e ebase False, rest)
    \<and> n = Number neg z b fcount e ebase"
proof -
  obtain z b fcount bad where M: "M = Mantissa z b fcount bad" by (cases M)
  obtain e ebase bad' r2 where E: "scanExponent r1 = (Exponent e ebase bad', r2)"
    by (cases "scanExponent r1") (metis exponent.exhaust)
  from assms M E have "\<not> bad" "\<not> bad'" "r2 = rest" "n = Number neg z b fcount e ebase"
    by (auto split: if_splits)
  with M E show ?thesis by simp
qed

lemma Float_scan_prefix:
  assumes "Float_scan s = (Some n, rest)"
  shows "s = numeral s @ rest" and "Float_scan (numeral s) = (Some n, [])"
proof -
  obtain sg where sg: "s = sg @ unsigned s"
    "sg = [] \<or> sg = [hd s] \<and> s \<noteq> [] \<and> (hd s = CHR ''-'' \<or> hd s = CHR ''+'')"
    "sg = [] \<longrightarrow> s = [] \<or> (hd s \<noteq> CHR ''-'' \<and> hd s \<noteq> CHR ''+'')"
    using sign_split by blast
  obtain M r1 where M: "nat_scan (unsigned s) = (M, r1)"
    by (cases "nat_scan (unsigned s)")
  with assms have w: "with_mantissa (negative s) (M, r1) = (Some n, rest)"
    by (simp add: Float_scan_def)
  from with_mantissa_Some [OF w] obtain z b fcount e ebase
    where Mz: "M = Mantissa z b fcount False"
      and E: "scanExponent r1 = (Exponent e ebase False, rest)"
      and n: "n = Number (negative s) z b fcount e ebase"
    by blast
  from nat_scan_prefix [OF M] obtain q1 where q1: "unsigned s = q1 @ r1"
    "\<forall>t. same_head r1 t \<longrightarrow> nat_scan (q1 @ t) = (M, t)"
    by blast
  from scanExponent_prefix [OF E] obtain q2 where q2: "r1 = q2 @ rest"
    "\<forall>t. same_head rest t \<longrightarrow> scanExponent (q2 @ t) = (Exponent e ebase False, t)"
    by blast
  have s: "s = sg @ (q1 @ q2) @ rest"
    using sg(1) q1(1) q2(1) by simp
  have len: "length s - length rest = length (sg @ q1 @ q2)"
    using arg_cong [OF s, of length] by simp
  have "take (length (sg @ q1 @ q2)) s = sg @ q1 @ q2"
    by (subst s) simp
  then have num: "numeral s = sg @ q1 @ q2"
    unfolding numeral_def using assms len by simp
  show "s = numeral s @ rest"
    using s num by simp
  have u: "unsigned (sg @ q1 @ q2) = q1 @ q2" "negative (sg @ q1 @ q2) = negative s"
    using unsigned_prefix [OF s sg(2) sg(3)] by simp_all
  have "same_head r1 q2"
    using q2(1) by (cases q2) (auto simp: same_head_def)
  then have m: "nat_scan (q1 @ q2) = (M, q2)"
    using q1(2) by blast
  have x: "scanExponent q2 = (Exponent e ebase False, [])"
    using q2(2) [rule_format, of "[]"] by simp
  show "Float_scan (numeral s) = (Some n, [])"
    unfolding num Float_scan_def u m by (simp add: Mz x n)
qed




lemma negative_numeral:
  assumes "Float_scan s = (Some n, rest)"
  shows "negative (numeral s) = negative s"
proof -
  obtain neg z b fcount e ebase where n: "n = Number neg z b fcount e ebase" by (cases n)
  have "\<And>t r. Float_scan t = (Some n, r) \<Longrightarrow> neg = negative t"
  proof -
    fix t r assume a: "Float_scan t = (Some n, r)"
    obtain M r1 where "nat_scan (unsigned t) = (M, r1)" by (cases "nat_scan (unsigned t)")
    with a have "with_mantissa (negative t) (M, r1) = (Some n, r)"
      by (simp add: Float_scan_def)
    from with_mantissa_Some [OF this] n show "neg = negative t" by auto
  qed
  from this [OF assms] this [OF Float_scan_prefix(2) [OF assms]] show ?thesis by simp
qed




lemmas float_eval = bit_length.simps floor_log2_def floor_log2_near_def nearest_even_def
  round_half_even_def round_at_def float64_pack_def float64_round_at_def float64_round_def
  round_prec_at_def round_from_def Float_round_def scaled_def MaxExp_def MinExp_def
  signed_def round_sum_def add_aligned_def

lemmas scan_eval = SetString_def Float_scan_def after_zero_def end_of_mantissa_def
  digit_of_def is_digit_def

lemmas amount_eval = toDisplayAmount_def scan_eval float_eval

lemma amount_one: "toDisplayAmount rt ''1000000000000000000'' = float64_one"
  by (simp add: amount_eval float64_one_def)

lemma amount_half: "toDisplayAmount rt ''500000000000000000'' = float64_half"
  by (simp add: amount_eval float64_half_def)


subsection \<open>The examples, evaluated\<close>

lemma amount_hundred: "toDisplayAmount rt ''100'' = hundred_wei"
  by (simp add: amount_eval hundred_wei_def)

lemma example_time: "dateTime_of example_runtime ''1690000000'' = ''2023-07-22 04:26:40''"
  by (simp add: dateTime_of_def FormatTime_def ParseInt_def is_digit_def digit_val_def
        decimal_def example_runtime_def wall_clock_def calendar_range_def time_Format_def
        civil_from_days_def civil_era_def civil_year_def civil_day_def civil_month_def
        appendInt_def digits_of.simps digit_char_def format_clock_def char_of_def
        bit_Suc_0_iff)

lemma example_details:
  "txDetails_of example_runtime ''1000000000000000000'' ''h1'' ''1690000000'' = details_1"
  "txDetails_of example_runtime ''100'' ''h2'' ''1690000000'' = details_2"
  "txDetails_of example_runtime ''100'' ''h3'' ''1690000000'' = details_3"
  "txDetails_of example_runtime ''100'' ''h4'' ''1690000000'' = details_4"
  "txDetails_of example_runtime ''500000000000000000'' ''h6'' ''1690000000'' = details_6"
  "txDetails_of example_runtime ''500000000000000000'' ''h7'' ''1690000000'' = details_7"
  "txDetails_of example_runtime ''500000000000000000'' ''h8'' ''1690000000'' = details_8"
  by (simp_all only: txDetails_of_def amount_one amount_half amount_hundred example_time
        details_1_def details_2_def details_3_def details_4_def details_6_def details_7_def
        details_8_def)

lemma example_sums:
  "float64_add float64_one hundred_wei = float64_one"
  "float64_add hundred_wei hundred_wei = two_hundred_wei"
  "float64_add float64_one float64_half = one_and_a_half"
  "float64_add float64_half float64_half = float64_one"
  "float64_add float64_one two_hundred_wei = after_one"
  "float64_add two_hundred_wei float64_one = after_one"
  "float64_add float64_zero float64_one = float64_one"
  "float64_add float64_zero two_hundred_wei = two_hundred_wei"
  by (simp_all add: float64_add.simps float_eval float64_one_def float64_half_def
        float64_zero_def hundred_wei_def two_hundred_wei_def one_and_a_half_def after_one_def)

lemmas example_records = record_1_def record_2_def record_3_def record_4_def record_5_def
  record_6_def record_7_def transfer_1_def transfer_2_def

lemmas example_aggregates = details_1_def details_2_def details_3_def details_4_def
  details_6_def details_7_def details_8_def aggregate_B_def aggregate_C_def
  aggregate_B_all_def payer_C_def transfer_B_def

lemma example_beneficiaries:
  "AnalyzeBeneficiary_map example_runtime ''0xa'' [record_1, record_2, record_3, record_4] [] []
     = [(''0xB'', aggregate_B), (''0xC'', aggregate_C)]"
  by (simp add: AnalyzeBeneficiary_map_def outgoing_tx_def outgoing_transfer_def
        processBeneficiary_def Let_def example_records example_details example_sums
        example_aggregates)

lemma example_beneficiaries_all:
  "AnalyzeBeneficiary_map example_runtime ''0xa'' [record_1, record_2, record_3, record_4]
       [record_6] [transfer_1, transfer_2]
     = [(''0xB'', aggregate_B_all), (''0xC'', aggregate_C)]"
  by (simp add: AnalyzeBeneficiary_map_def outgoing_tx_def outgoing_transfer_def
        processBeneficiary_def Let_def example_records example_details example_sums
        example_aggregates)

lemma example_payers_all:
  "AnalyzePayer_map example_runtime ''0xa'' [record_1, record_2, record_3, record_4]
       [record_6] [transfer_1, transfer_2]
     = [(''0xC'', payer_C)]"
  by (simp add: AnalyzePayer_map_def incoming_tx_def incoming_transfer_def
        processPayer_def Let_def example_records example_details example_sums
        example_aggregates)

lemma example_transfer_only:
  "AnalyzeBeneficiary_map example_runtime ''0xa'' [] [] [transfer_1] = [(''0xB'', transfer_B)]"
  "AnalyzePayer_map example_runtime ''0xa'' [] [] [transfer_1] = []"
  by (simp_all add: AnalyzeBeneficiary_map_def outgoing_tx_def outgoing_transfer_def
        AnalyzePayer_map_def incoming_tx_def incoming_transfer_def
        processBeneficiary_def Let_def example_records example_details example_sums
        example_aggregates)

lemma quiet_fetches:
  "GetNormalTransactions c quiet_net a = (Inr [], [Request])"
  "GetInternalTransactions c quiet_net a = (Inr [], [Request])"
  "GetTokenTransfers c quiet_net a = (Inr [], [Request])"
  by (simp_all add: GetNormalTransactions_def GetInternalTransactions_def GetTokenTransfers_def
        fetchTransactions_def retry_loop_3 decode_transactions_def decode_transfers_def
        quiet_net_def no_records_body_def)

lemma busy_fetches:
  "GetNormalTransactions c busy_net a = (Inr [record_7], [Request])"
  "GetInternalTransactions c busy_net a = (Inr [record_7], [Request])"
  "GetTokenTransfers c busy_net a = (Inr [transfer_1], [Request])"
  by (simp_all add: GetNormalTransactions_def GetInternalTransactions_def GetTokenTransfers_def
        fetchTransactions_def retry_loop_3 decode_transactions_def decode_transfers_def
        busy_net_def transfers_body_def)

lemma flaky_fetches:
  "GetNormalTransactions c flaky_net a = (Inr [], [Request, Sleep 1, Request])"
  "GetInternalTransactions c flaky_net a = (Inr [], [Request, Sleep 1, Request])"
  "GetTokenTransfers c flaky_net a =
     (Inl (Wrap ''error fetching token transfers'' (New ''connection reset by peer'')), [Request])"
  by (simp_all add: GetNormalTransactions_def GetInternalTransactions_def GetTokenTransfers_def
        fetchTransactions_def retry_loop_3 decode_transactions_def decode_transfers_def
        flaky_net_def no_records_body_def)

lemma endpoints_differ:
  "endpoint c ''txlistinternal'' a \<noteq> endpoint c ''txlist'' a"
  "endpoint c ''txlistinternal'' a \<noteq> endpoint c ''tokentx'' a"
  "endpoint c ''tokentx'' a \<noteq> endpoint c ''txlist'' a"
  by (simp_all add: endpoint_def baseURL_def)

lemma normal_flaky_fetches:
  "GetNormalTransactions example_client normal_flaky_net ''0xa''
     = (Inr [], [Request, Sleep 1, Request])"
  "GetInternalTransactions example_client normal_flaky_net ''0xa'' = (Inr [], [Request])"
  "GetTokenTransfers example_client normal_flaky_net ''0xa'' = (Inr [transfer_1], [Request])"
  by (simp_all add: GetNormalTransactions_def GetInternalTransactions_def GetTokenTransfers_def
        fetchTransactions_def retry_loop_3 decode_transactions_def decode_transfers_def
        normal_flaky_net_def no_records_body_def transfers_body_def endpoints_differ)

lemma down_fetches:
  "GetNormalTransactions example_client normal_down_net ''0xa'' =
     (Inl (Wrap ''error fetching transactions after 3 retries'' (New ''connection refused'')),
      [Request, Sleep 1, Request, Sleep 4, Request])"
  "GetInternalTransactions example_client normal_down_net ''0xa'' = (Inr [], [Request])"
  "GetTokenTransfers example_client normal_down_net ''0xa'' = (Inr [transfer_1], [Request])"
  by (simp_all add: GetNormalTransactions_def GetInternalTransactions_def GetTokenTransfers_def
        fetchTransactions_def retry_loop_3 decode_transactions_def decode_transfers_def
        normal_down_net_def no_records_body_def transfers_body_def endpoints_differ)

lemma down_Wait_interleaved:
  "group_err (Wait example_client normal_down_net [0, 1] ''0xa'') = None"
  "normalTxs (Wait example_client normal_down_net [0, 1] ''0xa'') = []"
  "internalTxs (Wait example_client normal_down_net [0, 1] ''0xa'') = []"
  "tokenTransfers (Wait example_client normal_down_net [0, 1] ''0xa'') = [transfer_1]"
  by (simp_all add: Wait_def step_def assign_def return_step_def fetches_init_def down_fetches)

lemma down_Wait_in_turn:
  "group_err (Wait example_client normal_down_net [] ''0xa'') =
     Some (Wrap ''error fetching normal transactions''
             (Wrap ''error fetching transactions after 3 retries'' (New ''connection refused'')))"
  by (simp_all add: Wait_def step_def assign_def return_step_def fetches_init_def down_fetches
        wrap_message_def)



section \<open>Claims\<close>

text \<open>
  Claim C1, as the code has it. The slice an analysis returns holds one aggregate for each
  counterparty. Its addresses are an arrangement of the sequence of first insertions (the
  keys of the calls in the order normal, internal, token, each at its first occurrence),
  without repetition, and any two slices the analysis may return for the same three lists
  are arrangements of each other. The sequence of first insertions itself is one of them:
  the map holds the keys in this order, and the \<^verbatim>\<open>range\<close> over it may or may not follow it.
\<close>

theorem aggregate_arrangement:
  "(AnalyzeBeneficiary_aggregate rt address n i t bs \<longrightarrow>
      mset (map Address bs)
        = mset (first_occurrences (map fst (beneficiary_calls rt address n i t)))
      \<and> distinct (map Address bs)
      \<and> (AnalyzeBeneficiary_aggregate rt address n i t bs' \<longrightarrow> mset bs' = mset bs))
   \<and> AnalyzeBeneficiary_aggregate rt address n i t
        (map snd (AnalyzeBeneficiary_map rt address n i t))
   \<and> map fst (AnalyzeBeneficiary_map rt address n i t)
       = first_occurrences (map fst (beneficiary_calls rt address n i t))
   \<and> (AnalyzePayer_aggregate rt address n i t ps \<longrightarrow>
      mset (map Address ps)
        = mset (first_occurrences (map fst (payer_calls rt address n i t)))
      \<and> distinct (map Address ps)
      \<and> (AnalyzePayer_aggregate rt address n i t ps' \<longrightarrow> mset ps' = mset ps))
   \<and> AnalyzePayer_aggregate rt address n i t
        (map snd (AnalyzePayer_map rt address n i t))
   \<and> map fst (AnalyzePayer_map rt address n i t)
       = first_occurrences (map fst (payer_calls rt address n i t))"
proof (intro conjI impI)
  assume a: "AnalyzeBeneficiary_aggregate rt address n i t bs"
  then have r: "range_values (grouped rt (beneficiary_calls rt address n i t)) bs"
    by (simp add: AnalyzeBeneficiary_aggregate_def AnalyzeBeneficiary_map_grouped)
  show "mset (map Address bs)
        = mset (first_occurrences (map fst (beneficiary_calls rt address n i t)))"
    using r by (rule range_grouped_addresses)
  show "distinct (map Address bs)"
    using r by (rule range_grouped_distinct)
  assume "AnalyzeBeneficiary_aggregate rt address n i t bs'"
  with a show "mset bs' = mset bs"
    by (simp add: AnalyzeBeneficiary_aggregate_def range_values_def)
next
  show "AnalyzeBeneficiary_aggregate rt address n i t
        (map snd (AnalyzeBeneficiary_map rt address n i t))"
    by (simp add: AnalyzeBeneficiary_aggregate_def range_values_def)
  show "map fst (AnalyzeBeneficiary_map rt address n i t)
       = first_occurrences (map fst (beneficiary_calls rt address n i t))"
    by (simp add: AnalyzeBeneficiary_map_grouped grouped_eq comp_def)
next
  assume a: "AnalyzePayer_aggregate rt address n i t ps"
  then have r: "range_values (grouped rt (payer_calls rt address n i t)) ps"
    by (simp add: AnalyzePayer_aggregate_def AnalyzePayer_map_grouped)
  show "mset (map Address ps)
        = mset (first_occurrences (map fst (payer_calls rt address n i t)))"
    using r by (rule range_grouped_addresses)
  show "distinct (map Address ps)"
    using r by (rule range_grouped_distinct)
  assume "AnalyzePayer_aggregate rt address n i t ps'"
  with a show "mset ps' = mset ps"
    by (simp add: AnalyzePayer_aggregate_def range_values_def)
next
  show "AnalyzePayer_aggregate rt address n i t
        (map snd (AnalyzePayer_map rt address n i t))"
    by (simp add: AnalyzePayer_aggregate_def range_values_def)
  show "map fst (AnalyzePayer_map rt address n i t)
       = first_occurrences (map fst (payer_calls rt address n i t))"
    by (simp add: AnalyzePayer_map_grouped grouped_eq comp_def)
qed

text \<open>The theorem at the example records, for the slice that lists \<open>0xC\<close> before \<open>0xB\<close>.\<close>

theorem aggregate_arrangement_witness:
  "AnalyzeBeneficiary_aggregate example_runtime ''0xa'' [record_1, record_2, record_3, record_4]
     [record_6] [transfer_1, transfer_2] [aggregate_C, aggregate_B_all]
   \<and> AnalyzeBeneficiary_aggregate example_runtime ''0xa'' [record_1, record_2, record_3, record_4]
       [record_6] [transfer_1, transfer_2] [aggregate_B_all, aggregate_C]
   \<and> mset (map Address [aggregate_C, aggregate_B_all])
       = mset (first_occurrences (map fst (beneficiary_calls example_runtime ''0xa''
           [record_1, record_2, record_3, record_4] [record_6] [transfer_1, transfer_2])))
   \<and> distinct (map Address [aggregate_C, aggregate_B_all])
   \<and> mset [aggregate_B_all, aggregate_C] = mset [aggregate_C, aggregate_B_all]
   \<and> AnalyzePayer_aggregate example_runtime ''0xa'' [record_1, record_2, record_3, record_4]
       [record_6] [transfer_1, transfer_2] [payer_C]
   \<and> mset (map Address [payer_C])
       = mset (first_occurrences (map fst (payer_calls example_runtime ''0xa''
           [record_1, record_2, record_3, record_4] [record_6] [transfer_1, transfer_2])))
   \<and> distinct (map Address [payer_C])"
proof -
  let ?n = "[record_1, record_2, record_3, record_4]"
  let ?i = "[record_6]"
  let ?t = "[transfer_1, transfer_2]"
  have b: "AnalyzeBeneficiary_aggregate example_runtime ''0xa'' ?n ?i ?t
             [aggregate_C, aggregate_B_all]"
    and b': "AnalyzeBeneficiary_aggregate example_runtime ''0xa'' ?n ?i ?t
             [aggregate_B_all, aggregate_C]"
    by (simp_all add: AnalyzeBeneficiary_aggregate_def range_values_def
          example_beneficiaries_all add_mset_commute)
  have p: "AnalyzePayer_aggregate example_runtime ''0xa'' ?n ?i ?t [payer_C]"
    by (simp add: AnalyzePayer_aggregate_def range_values_def example_payers_all)
  note th = aggregate_arrangement [where rt = example_runtime and address = "''0xa''"
      and n = ?n and i = ?i and t = ?t and bs = "[aggregate_C, aggregate_B_all]"
      and bs' = "[aggregate_B_all, aggregate_C]" and ps = "[payer_C]" and ps' = "[payer_C]"]
  from th b b' p show ?thesis by blast
qed

text \<open>
  Against the claim as it is written (the slice is in first-insertion order, and the same
  at every repetition): of the four payments of \<open>0xA\<close>, the first goes to \<open>0xB\<close> and the
  third to \<open>0xC\<close>, so the order of first insertion is \<open>0xB\<close>, \<open>0xC\<close>; and the slice
  with \<open>0xC\<close> first is one the analysis may return, as is the slice with \<open>0xB\<close> first.
\<close>

theorem insertion_order_counterexample:
  "AnalyzeBeneficiary_aggregate example_runtime ''0xa'' [record_1, record_2, record_3, record_4]
     [] [] [aggregate_C, aggregate_B]
   \<and> AnalyzeBeneficiary_aggregate example_runtime ''0xa'' [record_1, record_2, record_3, record_4]
       [] [] [aggregate_B, aggregate_C]
   \<and> first_occurrences (map fst (beneficiary_calls example_runtime ''0xa''
         [record_1, record_2, record_3, record_4] [] [])) = [''0xB'', ''0xC'']
   \<and> map Address [aggregate_C, aggregate_B] = [''0xC'', ''0xB'']
   \<and> [aggregate_C, aggregate_B] \<noteq> [aggregate_B, aggregate_C]"
proof (intro conjI)
  show "AnalyzeBeneficiary_aggregate example_runtime ''0xa''
          [record_1, record_2, record_3, record_4] [] [] [aggregate_C, aggregate_B]"
    and "AnalyzeBeneficiary_aggregate example_runtime ''0xa''
          [record_1, record_2, record_3, record_4] [] [] [aggregate_B, aggregate_C]"
    by (simp_all add: AnalyzeBeneficiary_aggregate_def range_values_def example_beneficiaries
          add_mset_commute)
  show "first_occurrences (map fst (beneficiary_calls example_runtime ''0xa''
         [record_1, record_2, record_3, record_4] [] [])) = [''0xB'', ''0xC'']"
    by (simp add: first_occurrences_def beneficiary_calls_def outgoing_tx_def tx_out_def
          example_records)
  show "map Address [aggregate_C, aggregate_B] = [''0xC'', ''0xB'']"
    and "[aggregate_C, aggregate_B] \<noteq> [aggregate_B, aggregate_C]"
    by (simp_all add: aggregate_B_def aggregate_C_def)
qed

text \<open>
  Claim C3. Directionality: a beneficiary analysis of \<open>address\<close> returns an aggregate for a
  counterparty only if a normal or internal transaction or a token transfer has a sender
  that \<^verbatim>\<open>strings.EqualFold\<close> equates with \<open>address\<close> and the counterparty as its
  receiver; a payer analysis, only if one has a receiver that \<^verbatim>\<open>EqualFold\<close> equates with
  \<open>address\<close> and the counterparty as its sender. Case-insensitivity: on ASCII strings
  \<^verbatim>\<open>EqualFold\<close> holds exactly when the two strings are equal after lower-casing, and a
  transaction without error flag, or a token transfer, whose endpoint differs from
  \<open>address\<close> in the case of letters only has its counterparty among the aggregates
  returned.
\<close>

theorem directionality:
  "(AnalyzeBeneficiary_aggregate rt address n i t bs \<longrightarrow>
      (\<forall>b\<in>set bs.
         (\<exists>tx\<in>set n \<union> set i.
            EqualFold (fold_unicode rt) (Transaction.From tx) address
            \<and> Transaction.To tx = Address b)
         \<or> (\<exists>tr\<in>set t.
               EqualFold (fold_unicode rt) (TokenTransfer.From tr) address
               \<and> TokenTransfer.To tr = Address b)))
   \<and> (AnalyzePayer_aggregate rt address n i t ps \<longrightarrow>
        (\<forall>p\<in>set ps.
           (\<exists>tx\<in>set n \<union> set i.
              EqualFold (fold_unicode rt) (Transaction.To tx) address
              \<and> Transaction.From tx = Address p)
           \<or> (\<exists>tr\<in>set t.
                 EqualFold (fold_unicode rt) (TokenTransfer.To tr) address
                 \<and> TokenTransfer.From tr = Address p)))
   \<and> (is_ascii s \<and> is_ascii address \<longrightarrow>
        EqualFold (fold_unicode rt) s address = (map ascii_lower s = map ascii_lower address))
   \<and> (AnalyzeBeneficiary_aggregate rt address n i t bs
        \<and> tx \<in> set n \<union> set i \<and> IsError tx = ''0''
        \<and> is_ascii (Transaction.From tx) \<and> is_ascii address
        \<and> map ascii_lower (Transaction.From tx) = map ascii_lower address \<longrightarrow>
        Transaction.To tx \<in> Address ` set bs)
   \<and> (AnalyzePayer_aggregate rt address n i t ps
        \<and> tx' \<in> set n \<union> set i \<and> IsError tx' = ''0''
        \<and> is_ascii (Transaction.To tx') \<and> is_ascii address
        \<and> map ascii_lower (Transaction.To tx') = map ascii_lower address \<longrightarrow>
        Transaction.From tx' \<in> Address ` set ps)
   \<and> (AnalyzeBeneficiary_aggregate rt address n i t bs \<and> tr \<in> set t
        \<and> is_ascii (TokenTransfer.From tr) \<and> is_ascii address
        \<and> map ascii_lower (TokenTransfer.From tr) = map ascii_lower address \<longrightarrow>
        TokenTransfer.To tr \<in> Address ` set bs)
   \<and> (AnalyzePayer_aggregate rt address n i t ps \<and> tr' \<in> set t
        \<and> is_ascii (TokenTransfer.To tr') \<and> is_ascii address
        \<and> map ascii_lower (TokenTransfer.To tr') = map ascii_lower address \<longrightarrow>
        TokenTransfer.From tr' \<in> Address ` set ps)"
proof (intro conjI impI ballI)
  fix b assume agg: "AnalyzeBeneficiary_aggregate rt address n i t bs" and b: "b \<in> set bs"
  have "Address ` set bs = fst ` set (beneficiary_calls rt address n i t)"
    using agg unfolding AnalyzeBeneficiary_aggregate_def AnalyzeBeneficiary_map_grouped
    by (rule range_grouped_address_set)
  then have "Address b \<in> fst ` set (beneficiary_calls rt address n i t)"
    using b by blast
  then show "(\<exists>tx\<in>set n \<union> set i.
            EqualFold (fold_unicode rt) (Transaction.From tx) address
            \<and> Transaction.To tx = Address b)
         \<or> (\<exists>tr\<in>set t.
               EqualFold (fold_unicode rt) (TokenTransfer.From tr) address
               \<and> TokenTransfer.To tr = Address b)"
    unfolding beneficiary_calls_keys outgoing_tx_def outgoing_transfer_def by blast
next
  fix p assume agg: "AnalyzePayer_aggregate rt address n i t ps" and p: "p \<in> set ps"
  have "Address ` set ps = fst ` set (payer_calls rt address n i t)"
    using agg unfolding AnalyzePayer_aggregate_def AnalyzePayer_map_grouped
    by (rule range_grouped_address_set)
  then have "Address p \<in> fst ` set (payer_calls rt address n i t)"
    using p by blast
  then show "(\<exists>tx\<in>set n \<union> set i.
              EqualFold (fold_unicode rt) (Transaction.To tx) address
              \<and> Transaction.From tx = Address p)
           \<or> (\<exists>tr\<in>set t.
                 EqualFold (fold_unicode rt) (TokenTransfer.To tr) address
                 \<and> TokenTransfer.From tr = Address p)"
    unfolding payer_calls_keys incoming_tx_def incoming_transfer_def by blast
next
  assume "is_ascii s \<and> is_ascii address"
  then show "EqualFold (fold_unicode rt) s address = (map ascii_lower s = map ascii_lower address)"
    by (simp add: EqualFold_ascii)
next
  assume h: "AnalyzeBeneficiary_aggregate rt address n i t bs
        \<and> tx \<in> set n \<union> set i \<and> IsError tx = ''0''
        \<and> is_ascii (Transaction.From tx) \<and> is_ascii address
        \<and> map ascii_lower (Transaction.From tx) = map ascii_lower address"
  then have "outgoing_tx rt address tx"
    by (simp add: outgoing_tx_def EqualFold_ascii)
  then have "Transaction.To tx \<in> fst ` set (beneficiary_calls rt address n i t)"
    using h unfolding beneficiary_calls_keys by blast
  moreover have "Address ` set bs = fst ` set (beneficiary_calls rt address n i t)"
    using h unfolding AnalyzeBeneficiary_aggregate_def AnalyzeBeneficiary_map_grouped
    by (intro range_grouped_address_set [of rt]) simp
  ultimately show "Transaction.To tx \<in> Address ` set bs" by simp
next
  assume h: "AnalyzePayer_aggregate rt address n i t ps
        \<and> tx' \<in> set n \<union> set i \<and> IsError tx' = ''0''
        \<and> is_ascii (Transaction.To tx') \<and> is_ascii address
        \<and> map ascii_lower (Transaction.To tx') = map ascii_lower address"
  then have "incoming_tx rt address tx'"
    by (simp add: incoming_tx_def EqualFold_ascii)
  then have "Transaction.From tx' \<in> fst ` set (payer_calls rt address n i t)"
    using h unfolding payer_calls_keys by blast
  moreover have "Address ` set ps = fst ` set (payer_calls rt address n i t)"
    using h unfolding AnalyzePayer_aggregate_def AnalyzePayer_map_grouped
    by (intro range_grouped_address_set [of rt]) simp
  ultimately show "Transaction.From tx' \<in> Address ` set ps" by simp
next
  assume h: "AnalyzeBeneficiary_aggregate rt address n i t bs \<and> tr \<in> set t
        \<and> is_ascii (TokenTransfer.From tr) \<and> is_ascii address
        \<and> map ascii_lower (TokenTransfer.From tr) = map ascii_lower address"
  then have "outgoing_transfer rt address tr"
    by (simp add: outgoing_transfer_def EqualFold_ascii)
  then have "TokenTransfer.To tr \<in> fst ` set (beneficiary_calls rt address n i t)"
    using h unfolding beneficiary_calls_keys by blast
  moreover have "Address ` set bs = fst ` set (beneficiary_calls rt address n i t)"
    using h unfolding AnalyzeBeneficiary_aggregate_def AnalyzeBeneficiary_map_grouped
    by (intro range_grouped_address_set [of rt]) simp
  ultimately show "TokenTransfer.To tr \<in> Address ` set bs" by simp
next
  assume h: "AnalyzePayer_aggregate rt address n i t ps \<and> tr' \<in> set t
        \<and> is_ascii (TokenTransfer.To tr') \<and> is_ascii address
        \<and> map ascii_lower (TokenTransfer.To tr') = map ascii_lower address"
  then have "incoming_transfer rt address tr'"
    by (simp add: incoming_transfer_def EqualFold_ascii)
  then have "TokenTransfer.From tr' \<in> fst ` set (payer_calls rt address n i t)"
    using h unfolding payer_calls_keys by blast
  moreover have "Address ` set ps = fst ` set (payer_calls rt address n i t)"
    using h unfolding AnalyzePayer_aggregate_def AnalyzePayer_map_grouped
    by (intro range_grouped_address_set [of rt]) simp
  ultimately show "TokenTransfer.From tr' \<in> Address ` set ps" by simp
qed

text \<open>
  The theorem at the example records, queried for \<open>0xa\<close>: the aggregate of \<open>0xC\<close> among the
  beneficiaries and among the payers, the spelling \<open>0xA\<close> of the records, the payment
  \<open>record_1\<close> of \<open>0xA\<close> to \<open>0xB\<close>, the payment \<open>record_6\<close> of \<open>0xC\<close> to \<open>0xA\<close>, and the
  two token transfers.
\<close>

theorem directionality_witness:
  "AnalyzeBeneficiary_aggregate example_runtime ''0xa'' [record_1, record_2, record_3, record_4]
     [record_6] [transfer_1, transfer_2] [aggregate_C, aggregate_B_all]
   \<and> ((\<exists>tx\<in>set [record_1, record_2, record_3, record_4] \<union> set [record_6].
          EqualFold (fold_unicode example_runtime) (Transaction.From tx) ''0xa''
          \<and> Transaction.To tx = Address aggregate_C)
       \<or> (\<exists>tr\<in>set [transfer_1, transfer_2].
             EqualFold (fold_unicode example_runtime) (TokenTransfer.From tr) ''0xa''
             \<and> TokenTransfer.To tr = Address aggregate_C))
   \<and> AnalyzePayer_aggregate example_runtime ''0xa'' [record_1, record_2, record_3, record_4]
       [record_6] [transfer_1, transfer_2] [payer_C]
   \<and> ((\<exists>tx\<in>set [record_1, record_2, record_3, record_4] \<union> set [record_6].
          EqualFold (fold_unicode example_runtime) (Transaction.To tx) ''0xa''
          \<and> Transaction.From tx = Address payer_C)
       \<or> (\<exists>tr\<in>set [transfer_1, transfer_2].
             EqualFold (fold_unicode example_runtime) (TokenTransfer.To tr) ''0xa''
             \<and> TokenTransfer.From tr = Address payer_C))
   \<and> is_ascii ''0xA'' \<and> is_ascii ''0xa'' \<and> map ascii_lower ''0xA'' = map ascii_lower ''0xa''
   \<and> EqualFold (fold_unicode example_runtime) ''0xA'' ''0xa''
   \<and> Transaction.From record_1 = ''0xA'' \<and> IsError record_1 = ''0''
   \<and> Transaction.To record_1 \<in> Address ` set [aggregate_C, aggregate_B_all]
   \<and> Transaction.To record_6 = ''0xA'' \<and> IsError record_6 = ''0''
   \<and> Transaction.From record_6 \<in> Address ` set [payer_C]
   \<and> TokenTransfer.From transfer_1 = ''0xA''
   \<and> TokenTransfer.To transfer_1 \<in> Address ` set [aggregate_C, aggregate_B_all]
   \<and> TokenTransfer.To transfer_2 = ''0xA''
   \<and> TokenTransfer.From transfer_2 \<in> Address ` set [payer_C]"
proof -
  let ?n = "[record_1, record_2, record_3, record_4]"
  let ?i = "[record_6]"
  let ?t = "[transfer_1, transfer_2]"
  have b: "AnalyzeBeneficiary_aggregate example_runtime ''0xa'' ?n ?i ?t
             [aggregate_C, aggregate_B_all]"
    by (simp add: AnalyzeBeneficiary_aggregate_def range_values_def
          example_beneficiaries_all add_mset_commute)
  have p: "AnalyzePayer_aggregate example_runtime ''0xa'' ?n ?i ?t [payer_C]"
    by (simp add: AnalyzePayer_aggregate_def range_values_def example_payers_all)
  have a: "is_ascii ''0xA''" "is_ascii ''0xa''"
    by (simp_all add: is_ascii_def)
  have l: "map ascii_lower ''0xA'' = map ascii_lower ''0xa''"
    by (simp add: ascii_lower_def char_of_def bit_Suc_0_iff)
  have r1: "Transaction.From record_1 = ''0xA''" "IsError record_1 = ''0''"
    "record_1 \<in> set ?n \<union> set ?i"
    and r6: "Transaction.To record_6 = ''0xA''" "IsError record_6 = ''0''"
    "record_6 \<in> set ?n \<union> set ?i"
    by (simp_all add: record_1_def record_6_def)
  have m: "aggregate_C \<in> set [aggregate_C, aggregate_B_all]" "payer_C \<in> set [payer_C]"
    by simp_all
  note th = directionality [where rt = example_runtime and address = "''0xa''"
      and n = ?n and i = ?i and t = ?t and bs = "[aggregate_C, aggregate_B_all]"
      and ps = "[payer_C]" and s = "''0xA''" and tx = record_1 and tx' = record_6
      and tr = transfer_1 and tr' = transfer_2]
  have t1: "TokenTransfer.From transfer_1 = ''0xA''" "transfer_1 \<in> set ?t"
    and t2: "TokenTransfer.To transfer_2 = ''0xA''" "transfer_2 \<in> set ?t"
    by (simp_all add: transfer_1_def transfer_2_def)
  have c1: "(\<exists>tx\<in>set ?n \<union> set ?i.
          EqualFold (fold_unicode example_runtime) (Transaction.From tx) ''0xa''
          \<and> Transaction.To tx = Address aggregate_C)
       \<or> (\<exists>tr\<in>set ?t.
             EqualFold (fold_unicode example_runtime) (TokenTransfer.From tr) ''0xa''
             \<and> TokenTransfer.To tr = Address aggregate_C)"
    using th [THEN conjunct1] b m(1) by blast
  have c2: "(\<exists>tx\<in>set ?n \<union> set ?i.
          EqualFold (fold_unicode example_runtime) (Transaction.To tx) ''0xa''
          \<and> Transaction.From tx = Address payer_C)
       \<or> (\<exists>tr\<in>set ?t.
             EqualFold (fold_unicode example_runtime) (TokenTransfer.To tr) ''0xa''
             \<and> TokenTransfer.From tr = Address payer_C)"
    using th [THEN conjunct2, THEN conjunct1] p m(2) by blast
  have c3: "EqualFold (fold_unicode example_runtime) ''0xA'' ''0xa''"
    using th [THEN conjunct2, THEN conjunct2, THEN conjunct1] a l by blast
  have c4: "Transaction.To record_1 \<in> Address ` set [aggregate_C, aggregate_B_all]"
    using th [THEN conjunct2, THEN conjunct2, THEN conjunct2, THEN conjunct1] b a l r1
    by (simp only: simp_thms)
  have c5: "Transaction.From record_6 \<in> Address ` set [payer_C]"
    using th [THEN conjunct2, THEN conjunct2, THEN conjunct2, THEN conjunct2, THEN conjunct1]
      p a l r6
    by (simp only: simp_thms)
  have c6: "TokenTransfer.To transfer_1 \<in> Address ` set [aggregate_C, aggregate_B_all]"
    using th [THEN conjunct2, THEN conjunct2, THEN conjunct2, THEN conjunct2, THEN conjunct2,
        THEN conjunct1] b a l t1
    by (simp only: simp_thms)
  have c7: "TokenTransfer.From transfer_2 \<in> Address ` set [payer_C]"
    using th [THEN conjunct2, THEN conjunct2, THEN conjunct2, THEN conjunct2, THEN conjunct2,
        THEN conjunct2] p a l t2
    by (simp only: simp_thms)
  from b p a l r1 r6 c1 c2 c3 c4 c5 t1(1) c6 t2(1) c7 show ?thesis by (intro conjI)
qed

text \<open>
  Claim C4. Error exclusion: a normal or internal transaction whose \<^verbatim>\<open>isError\<close> is not
  \<open>"0"\<close> contributes to no aggregate, whatever its direction: the map both analyzers build
  is the map they build when these transactions are removed from the two lists. A token
  transfer that matches the direction always contributes: an aggregate of its counterparty
  is returned and lists the transfer's details.
\<close>

theorem error_exclusion:
  "AnalyzeBeneficiary_map rt address n i t =
     AnalyzeBeneficiary_map rt address
       (filter (\<lambda>tx. IsError tx = ''0'') n) (filter (\<lambda>tx. IsError tx = ''0'') i) t
   \<and> AnalyzePayer_map rt address n i t =
       AnalyzePayer_map rt address
         (filter (\<lambda>tx. IsError tx = ''0'') n) (filter (\<lambda>tx. IsError tx = ''0'') i) t
   \<and> (AnalyzeBeneficiary_aggregate rt address n i t bs \<and> tr \<in> set t
        \<and> EqualFold (fold_unicode rt) (TokenTransfer.From tr) address \<longrightarrow>
        (\<exists>b\<in>set bs. Address b = TokenTransfer.To tr
           \<and> txDetails_of rt (TokenTransfer.Value tr) (TokenTransfer.Hash tr)
                (TokenTransfer.TimeStamp tr) \<in> set (Transactions b)))
   \<and> (AnalyzePayer_aggregate rt address n i t ps \<and> tr' \<in> set t
        \<and> EqualFold (fold_unicode rt) (TokenTransfer.To tr') address \<longrightarrow>
        (\<exists>p\<in>set ps. Address p = TokenTransfer.From tr'
           \<and> txDetails_of rt (TokenTransfer.Value tr') (TokenTransfer.Hash tr')
                (TokenTransfer.TimeStamp tr') \<in> set (Transactions p)))"
proof (intro conjI impI)
  show "AnalyzeBeneficiary_map rt address n i t =
     AnalyzeBeneficiary_map rt address
       (filter (\<lambda>tx. IsError tx = ''0'') n) (filter (\<lambda>tx. IsError tx = ''0'') i) t"
    by (simp only: AnalyzeBeneficiary_map_grouped beneficiary_calls_ok)
  show "AnalyzePayer_map rt address n i t =
       AnalyzePayer_map rt address
         (filter (\<lambda>tx. IsError tx = ''0'') n) (filter (\<lambda>tx. IsError tx = ''0'') i) t"
    by (simp only: AnalyzePayer_map_grouped payer_calls_ok)
next
  assume h: "AnalyzeBeneficiary_aggregate rt address n i t bs \<and> tr \<in> set t
        \<and> EqualFold (fold_unicode rt) (TokenTransfer.From tr) address"
  then have "transfer_out tr \<in> set (beneficiary_calls rt address n i t)"
    by (simp add: beneficiary_calls_def outgoing_transfer_def)
  moreover have "range_values (grouped rt (beneficiary_calls rt address n i t)) bs"
    using h by (simp add: AnalyzeBeneficiary_aggregate_def AnalyzeBeneficiary_map_grouped)
  ultimately have "\<exists>b\<in>set bs. Address b = fst (transfer_out tr)
      \<and> call_details rt (transfer_out tr) \<in> set (Transactions b)"
    by (intro contributes_grouped)
  then show "\<exists>b\<in>set bs. Address b = TokenTransfer.To tr
           \<and> txDetails_of rt (TokenTransfer.Value tr) (TokenTransfer.Hash tr)
                (TokenTransfer.TimeStamp tr) \<in> set (Transactions b)"
    by (simp add: call_details_def transfer_out_def)
next
  assume h: "AnalyzePayer_aggregate rt address n i t ps \<and> tr' \<in> set t
        \<and> EqualFold (fold_unicode rt) (TokenTransfer.To tr') address"
  then have "transfer_in tr' \<in> set (payer_calls rt address n i t)"
    by (simp add: payer_calls_def incoming_transfer_def)
  moreover have "range_values (grouped rt (payer_calls rt address n i t)) ps"
    using h by (simp add: AnalyzePayer_aggregate_def AnalyzePayer_map_grouped)
  ultimately have "\<exists>p\<in>set ps. Address p = fst (transfer_in tr')
      \<and> call_details rt (transfer_in tr') \<in> set (Transactions p)"
    by (intro contributes_grouped)
  then show "\<exists>p\<in>set ps. Address p = TokenTransfer.From tr'
           \<and> txDetails_of rt (TokenTransfer.Value tr') (TokenTransfer.Hash tr')
                (TokenTransfer.TimeStamp tr') \<in> set (Transactions p)"
    by (simp add: call_details_def transfer_in_def)
qed

text \<open>
  The theorem at the example records with the failed payment \<open>record_5\<close> of \<open>0xA\<close> to
  \<open>0xD\<close> among the normal transactions: the map has no entry for \<open>0xD\<close>, and the two
  token transfers are listed by the aggregates of their counterparties.
\<close>

theorem error_exclusion_witness:
  "EqualFold (fold_unicode example_runtime) (Transaction.From record_5) ''0xa''
   \<and> IsError record_5 = ''1''
   \<and> AnalyzeBeneficiary_map example_runtime ''0xa''
        [record_1, record_5, record_2, record_3, record_4] [record_6] [transfer_1, transfer_2]
       = [(''0xB'', aggregate_B_all), (''0xC'', aggregate_C)]
   \<and> AnalyzePayer_map example_runtime ''0xa''
        [record_1, record_5, record_2, record_3, record_4] [record_6] [transfer_1, transfer_2]
       = [(''0xC'', payer_C)]
   \<and> AnalyzeBeneficiary_aggregate example_runtime ''0xa''
        [record_1, record_5, record_2, record_3, record_4] [record_6] [transfer_1, transfer_2]
        [aggregate_C, aggregate_B_all]
   \<and> EqualFold (fold_unicode example_runtime) (TokenTransfer.From transfer_1) ''0xa''
   \<and> (\<exists>b\<in>set [aggregate_C, aggregate_B_all]. Address b = TokenTransfer.To transfer_1
         \<and> txDetails_of example_runtime (TokenTransfer.Value transfer_1)
              (TokenTransfer.Hash transfer_1) (TokenTransfer.TimeStamp transfer_1)
            \<in> set (Transactions b))
   \<and> AnalyzePayer_aggregate example_runtime ''0xa''
        [record_1, record_5, record_2, record_3, record_4] [record_6] [transfer_1, transfer_2]
        [payer_C]
   \<and> EqualFold (fold_unicode example_runtime) (TokenTransfer.To transfer_2) ''0xa''
   \<and> (\<exists>p\<in>set [payer_C]. Address p = TokenTransfer.From transfer_2
         \<and> txDetails_of example_runtime (TokenTransfer.Value transfer_2)
              (TokenTransfer.Hash transfer_2) (TokenTransfer.TimeStamp transfer_2)
            \<in> set (Transactions p))"
proof -
  let ?n = "[record_1, record_5, record_2, record_3, record_4]"
  let ?i = "[record_6]"
  let ?t = "[transfer_1, transfer_2]"
  note th = error_exclusion [where rt = example_runtime and address = "''0xa''"
      and n = ?n and i = ?i and t = ?t and bs = "[aggregate_C, aggregate_B_all]"
      and ps = "[payer_C]" and tr = transfer_1 and tr' = transfer_2]
  have f: "filter (\<lambda>tx. IsError tx = ''0'') ?n = [record_1, record_2, record_3, record_4]"
    "filter (\<lambda>tx. IsError tx = ''0'') ?i = ?i"
    by (simp_all add: example_records)
  have mb: "AnalyzeBeneficiary_map example_runtime ''0xa'' ?n ?i ?t
              = [(''0xB'', aggregate_B_all), (''0xC'', aggregate_C)]"
    using th unfolding f example_beneficiaries_all by (rule conjunct1)
  have mp: "AnalyzePayer_map example_runtime ''0xa'' ?n ?i ?t = [(''0xC'', payer_C)]"
    using th unfolding f example_payers_all by (elim conjE)
  have b: "AnalyzeBeneficiary_aggregate example_runtime ''0xa'' ?n ?i ?t
             [aggregate_C, aggregate_B_all]"
    by (simp add: AnalyzeBeneficiary_aggregate_def range_values_def mb add_mset_commute)
  have p: "AnalyzePayer_aggregate example_runtime ''0xa'' ?n ?i ?t [payer_C]"
    by (simp add: AnalyzePayer_aggregate_def range_values_def mp)
  have e: "EqualFold (fold_unicode example_runtime) (Transaction.From record_5) ''0xa''"
    "IsError record_5 = ''1''"
    "EqualFold (fold_unicode example_runtime) (TokenTransfer.From transfer_1) ''0xa''"
    "EqualFold (fold_unicode example_runtime) (TokenTransfer.To transfer_2) ''0xa''"
    "transfer_1 \<in> set ?t" "transfer_2 \<in> set ?t"
    by (simp_all add: example_records)
  from th b p e mb mp show ?thesis by (elim conjE) (intro conjI; blast)
qed

text \<open>
  Claim C5, as the code has it. In every slice an analysis returns, an aggregate lists at
  least one transaction, and its \<^verbatim>\<open>Amount\<close> is the \<^verbatim>\<open>float64\<close> sum of the amounts it lists,
  added one by one in the order of the list, starting from the first. The list holds the
  details of the records of the aggregate's counterparty that pass the direction filter
  and the error filter, in the order in which the scan (normal, internal, token) meets
  them. The details listed by all the aggregates together are, one for one, the details of
  the records that pass the two filters.
\<close>

theorem totals_accumulate:
  "(AnalyzeBeneficiary_aggregate rt address n i t bs \<longrightarrow>
      (\<forall>b\<in>set bs. Transactions b \<noteq> []
         \<and> Amount b = foldl float64_add (TxAmount (hd (Transactions b)))
                         (map TxAmount (tl (Transactions b)))
         \<and> Transactions b
             = map (call_details rt)
                 (filter (\<lambda>c. fst c = Address b) (beneficiary_calls rt address n i t)))
      \<and> mset (concat (map Transactions bs))
          = mset (map (call_details rt) (beneficiary_calls rt address n i t)))
   \<and> (AnalyzePayer_aggregate rt address n i t ps \<longrightarrow>
      (\<forall>p\<in>set ps. Transactions p \<noteq> []
         \<and> Amount p = foldl float64_add (TxAmount (hd (Transactions p)))
                         (map TxAmount (tl (Transactions p)))
         \<and> Transactions p
             = map (call_details rt)
                 (filter (\<lambda>c. fst c = Address p) (payer_calls rt address n i t)))
      \<and> mset (concat (map Transactions ps))
          = mset (map (call_details rt) (payer_calls rt address n i t)))"
proof (intro conjI impI ballI)
  fix b assume a: "AnalyzeBeneficiary_aggregate rt address n i t bs" "b \<in> set bs"
  then have "Transactions b \<noteq> [] \<and> Amount b = running_total (Transactions b)"
    unfolding AnalyzeBeneficiary_aggregate_def AnalyzeBeneficiary_map_grouped
    by (rule totals_grouped)
  then show "Transactions b \<noteq> []"
    and "Amount b = foldl float64_add (TxAmount (hd (Transactions b)))
                         (map TxAmount (tl (Transactions b)))"
    by (simp_all add: running_total_def)
  show "Transactions b
          = map (call_details rt)
              (filter (\<lambda>c. fst c = Address b) (beneficiary_calls rt address n i t))"
    using a unfolding AnalyzeBeneficiary_aggregate_def AnalyzeBeneficiary_map_grouped
    by (rule encounter_order_grouped)
next
  assume "AnalyzeBeneficiary_aggregate rt address n i t bs"
  then show "mset (concat (map Transactions bs))
          = mset (map (call_details rt) (beneficiary_calls rt address n i t))"
    unfolding AnalyzeBeneficiary_aggregate_def AnalyzeBeneficiary_map_grouped
    by (rule all_details_grouped)
next
  fix p assume a: "AnalyzePayer_aggregate rt address n i t ps" "p \<in> set ps"
  then have "Transactions p \<noteq> [] \<and> Amount p = running_total (Transactions p)"
    unfolding AnalyzePayer_aggregate_def AnalyzePayer_map_grouped
    by (rule totals_grouped)
  then show "Transactions p \<noteq> []"
    and "Amount p = foldl float64_add (TxAmount (hd (Transactions p)))
                         (map TxAmount (tl (Transactions p)))"
    by (simp_all add: running_total_def)
  show "Transactions p
          = map (call_details rt)
              (filter (\<lambda>c. fst c = Address p) (payer_calls rt address n i t))"
    using a unfolding AnalyzePayer_aggregate_def AnalyzePayer_map_grouped
    by (rule encounter_order_grouped)
next
  assume "AnalyzePayer_aggregate rt address n i t ps"
  then show "mset (concat (map Transactions ps))
          = mset (map (call_details rt) (payer_calls rt address n i t))"
    unfolding AnalyzePayer_aggregate_def AnalyzePayer_map_grouped
    by (rule all_details_grouped)
qed

text \<open>The theorem at the example records, for the aggregate of \<open>0xB\<close> among the
  beneficiaries and the aggregate of \<open>0xC\<close> among the payers.\<close>

theorem totals_accumulate_witness:
  "AnalyzeBeneficiary_aggregate example_runtime ''0xa'' [record_1, record_2, record_3, record_4]
     [record_6] [transfer_1, transfer_2] [aggregate_C, aggregate_B_all]
   \<and> Transactions aggregate_B_all \<noteq> []
   \<and> Amount aggregate_B_all
       = foldl float64_add (TxAmount (hd (Transactions aggregate_B_all)))
           (map TxAmount (tl (Transactions aggregate_B_all)))
   \<and> Transactions aggregate_B_all
       = map (call_details example_runtime)
           (filter (\<lambda>c. fst c = Address aggregate_B_all)
              (beneficiary_calls example_runtime ''0xa''
                 [record_1, record_2, record_3, record_4] [record_6] [transfer_1, transfer_2]))
   \<and> mset (concat (map Transactions [aggregate_C, aggregate_B_all]))
       = mset (map (call_details example_runtime) (beneficiary_calls example_runtime ''0xa''
           [record_1, record_2, record_3, record_4] [record_6] [transfer_1, transfer_2]))
   \<and> AnalyzePayer_aggregate example_runtime ''0xa'' [record_1, record_2, record_3, record_4]
       [record_6] [transfer_1, transfer_2] [payer_C]
   \<and> Transactions payer_C \<noteq> []
   \<and> Amount payer_C
       = foldl float64_add (TxAmount (hd (Transactions payer_C)))
           (map TxAmount (tl (Transactions payer_C)))
   \<and> Transactions payer_C
       = map (call_details example_runtime)
           (filter (\<lambda>c. fst c = Address payer_C)
              (payer_calls example_runtime ''0xa''
                 [record_1, record_2, record_3, record_4] [record_6] [transfer_1, transfer_2]))
   \<and> mset (concat (map Transactions [payer_C]))
       = mset (map (call_details example_runtime) (payer_calls example_runtime ''0xa''
           [record_1, record_2, record_3, record_4] [record_6] [transfer_1, transfer_2]))"
proof -
  let ?n = "[record_1, record_2, record_3, record_4]"
  let ?i = "[record_6]"
  let ?t = "[transfer_1, transfer_2]"
  have b: "AnalyzeBeneficiary_aggregate example_runtime ''0xa'' ?n ?i ?t
             [aggregate_C, aggregate_B_all]"
    by (simp add: AnalyzeBeneficiary_aggregate_def range_values_def
          example_beneficiaries_all add_mset_commute)
  have p: "AnalyzePayer_aggregate example_runtime ''0xa'' ?n ?i ?t [payer_C]"
    by (simp add: AnalyzePayer_aggregate_def range_values_def example_payers_all)
  have m: "aggregate_B_all \<in> set [aggregate_C, aggregate_B_all]" "payer_C \<in> set [payer_C]"
    by simp_all
  note th = totals_accumulate [where rt = example_runtime and address = "''0xa''"
      and n = ?n and i = ?i and t = ?t and bs = "[aggregate_C, aggregate_B_all]"
      and ps = "[payer_C]"]
  from th b p m show ?thesis by blast
qed

text \<open>
  Against the second half of the claim as it is written (the totals of the aggregates add
  up to the sum of the amounts of the records that pass the filters). \<open>0xA\<close> pays 1 Ether
  and 100 Wei to \<open>0xB\<close> and twice 100 Wei to \<open>0xC\<close>. The total of \<open>0xB\<close> is \<open>1\<close>, as
  \<open>1 + 10^-16\<close> rounds to \<open>1\<close>, and the total of \<open>0xC\<close> is \<open>2 * 10^-16\<close>. In \<^verbatim>\<open>float64\<close> the
  two totals add up to \<open>1 + 2^-52\<close>, in either order, and the four amounts, added in the
  order of the records, to \<open>1\<close>. In exact arithmetic the totals add up to \<open>1 + 2 * a\<close> and
  the amounts to \<open>1 + 3 * a\<close>, for \<open>a\<close> the value of the \<^verbatim>\<open>float64\<close> of \<open>10^-16\<close>.
\<close>

theorem totals_sum_counterexample:
  "AnalyzeBeneficiary_aggregate example_runtime ''0xa'' [record_1, record_2, record_3, record_4]
     [] [] [aggregate_B, aggregate_C]
   \<and> AnalyzeBeneficiary_aggregate example_runtime ''0xa'' [record_1, record_2, record_3, record_4]
       [] [] [aggregate_C, aggregate_B]
   \<and> filter (outgoing_tx example_runtime ''0xa'') [record_1, record_2, record_3, record_4]
       = [record_1, record_2, record_3, record_4]
   \<and> float64_sum (map Amount [aggregate_B, aggregate_C]) = after_one
   \<and> float64_sum (map Amount [aggregate_C, aggregate_B]) = after_one
   \<and> float64_sum (map (toDisplayAmount example_runtime \<circ> Transaction.Value)
         [record_1, record_2, record_3, record_4]) = float64_one
   \<and> after_one \<noteq> float64_one
   \<and> sum_list (map (valof \<circ> Amount) [aggregate_B, aggregate_C])
       \<noteq> sum_list (map (valof \<circ> toDisplayAmount example_runtime \<circ> Transaction.Value)
             [record_1, record_2, record_3, record_4])"
proof (intro conjI)
  show "AnalyzeBeneficiary_aggregate example_runtime ''0xa''
          [record_1, record_2, record_3, record_4] [] [] [aggregate_B, aggregate_C]"
    and "AnalyzeBeneficiary_aggregate example_runtime ''0xa''
          [record_1, record_2, record_3, record_4] [] [] [aggregate_C, aggregate_B]"
    by (simp_all add: AnalyzeBeneficiary_aggregate_def range_values_def example_beneficiaries
          add_mset_commute)
  show "filter (outgoing_tx example_runtime ''0xa'') [record_1, record_2, record_3, record_4]
       = [record_1, record_2, record_3, record_4]"
    by (simp add: outgoing_tx_def example_records)
  show "float64_sum (map Amount [aggregate_B, aggregate_C]) = after_one"
    and "float64_sum (map Amount [aggregate_C, aggregate_B]) = after_one"
    by (simp_all add: float64_sum_def aggregate_B_def aggregate_C_def example_sums)
  show "float64_sum (map (toDisplayAmount example_runtime \<circ> Transaction.Value)
         [record_1, record_2, record_3, record_4]) = float64_one"
    by (simp add: float64_sum_def example_records amount_one amount_hundred example_sums)
  show "after_one \<noteq> float64_one"
    by (simp add: after_one_def float64_one_def)
  show "sum_list (map (valof \<circ> Amount) [aggregate_B, aggregate_C])
       \<noteq> sum_list (map (valof \<circ> toDisplayAmount example_runtime \<circ> Transaction.Value)
             [record_1, record_2, record_3, record_4])"
    by (simp add: aggregate_B_def aggregate_C_def example_records amount_one amount_hundred
          float64_one_def hundred_wei_def two_hundred_wei_def)
qed

text \<open>
  Claim C7. A response with status \<open>"0"\<close> and the message \<^verbatim>\<open>No transactions found\<close> is an
  empty list and no error, for each kind of fetch: for the normal and the internal
  transactions at whichever of the three attempts the transport answers first, for the
  token transfers at their one request. An analysis whose three fetches succeed returns a
  slice and no error, built from the three lists as fetched, so with the empty list in
  the place of a source that has no records.
\<close>

theorem no_records_is_success:
  "(k < 3 \<and> (\<forall>j<k. \<exists>e. get j = GetError e) \<and> get k = Body b
      \<and> as_TransactionResponse b = Inr r
      \<and> TransactionResponse.Status r = ''0''
      \<and> TransactionResponse.Message r = ''No transactions found'' \<longrightarrow>
      fst (fetchTransactions get) = Inr [])
   \<and> GetNormalTransactions c net address
       = fetchTransactions (net (endpoint c ''txlist'' address))
   \<and> GetInternalTransactions c net address
       = fetchTransactions (net (endpoint c ''txlistinternal'' address))
   \<and> (net (endpoint c ''tokentx'' address) 0 = Body b'
       \<and> as_TokenTransferResponse b' = Inr r'
       \<and> TokenTransferResponse.Status r' = ''0''
       \<and> TokenTransferResponse.Message r' = ''No transactions found'' \<longrightarrow>
       fst (GetTokenTransfers c net address) = Inr [])
   \<and> (fst (GetNormalTransactions c net address) = Inr n
       \<and> fst (GetInternalTransactions c net address) = Inr i
       \<and> fst (GetTokenTransfers c net address) = Inr t \<longrightarrow>
       (AnalyzeBeneficiary c net rt sched address ret \<longleftrightarrow>
          (\<exists>bs. ret = (Some bs, None) \<and> AnalyzeBeneficiary_aggregate rt address n i t bs))
       \<and> (AnalyzePayer c net rt sched address ret' \<longleftrightarrow>
          (\<exists>ps. ret' = (Some ps, None) \<and> AnalyzePayer_aggregate rt address n i t ps)))"
proof (intro conjI impI)
  assume h: "k < 3 \<and> (\<forall>j<k. \<exists>e. get j = GetError e) \<and> get k = Body b
      \<and> as_TransactionResponse b = Inr r
      \<and> TransactionResponse.Status r = ''0''
      \<and> TransactionResponse.Message r = ''No transactions found''"
  then have "fst (fetchTransactions get) = decode_transactions b"
    by (intro fetchTransactions_first_answer [of k]) simp_all
  then show "fst (fetchTransactions get) = Inr []"
    using h by (simp add: decode_transactions_def)
next
  show "GetNormalTransactions c net address
       = fetchTransactions (net (endpoint c ''txlist'' address))"
    by (simp add: GetNormalTransactions_def)
  show "GetInternalTransactions c net address
       = fetchTransactions (net (endpoint c ''txlistinternal'' address))"
    by (simp add: GetInternalTransactions_def)
next
  assume "net (endpoint c ''tokentx'' address) 0 = Body b'
       \<and> as_TokenTransferResponse b' = Inr r'
       \<and> TokenTransferResponse.Status r' = ''0''
       \<and> TokenTransferResponse.Message r' = ''No transactions found''"
  then show "fst (GetTokenTransfers c net address) = Inr []"
    by (simp add: GetTokenTransfers_def decode_transfers_def)
next
  assume h: "fst (GetNormalTransactions c net address) = Inr n
       \<and> fst (GetInternalTransactions c net address) = Inr i
       \<and> fst (GetTokenTransfers c net address) = Inr t"
  then have n: "fst (GetNormalTransactions c net address) = Inr n"
    and i: "fst (GetInternalTransactions c net address) = Inr i"
    and t: "fst (GetTokenTransfers c net address) = Inr t" by simp_all
  show "AnalyzeBeneficiary c net rt sched address ret \<longleftrightarrow>
          (\<exists>bs. ret = (Some bs, None) \<and> AnalyzeBeneficiary_aggregate rt address n i t bs)"
    by (rule analysis_of_fetched(1) [OF n i t])
  show "AnalyzePayer c net rt sched address ret' \<longleftrightarrow>
          (\<exists>ps. ret' = (Some ps, None) \<and> AnalyzePayer_aggregate rt address n i t ps)"
    by (rule analysis_of_fetched(2) [OF n i t])
qed

text \<open>
  The theorem at a network whose transport fails once at the endpoint of the normal
  transactions and then answers that there are none, while the other two endpoints answer
  at once, the internal one that there are none and the token one with \<open>transfer_1\<close>: the
  analysis of \<open>0xa\<close>, at any schedule, returns the aggregate of the transfer.
\<close>

theorem no_records_is_success_witness:
  "normal_flaky_net (endpoint example_client ''txlist'' ''0xa'') 0
     = GetError (New ''connection reset by peer'')
   \<and> normal_flaky_net (endpoint example_client ''txlist'' ''0xa'') 1 = Body no_records_body
   \<and> fst (fetchTransactions (normal_flaky_net (endpoint example_client ''txlist'' ''0xa'')))
       = Inr []
   \<and> fst (GetNormalTransactions example_client normal_flaky_net ''0xa'') = Inr []
   \<and> normal_flaky_net (endpoint example_client ''tokentx'' ''0xb'') 0 = Body no_records_body
   \<and> fst (GetTokenTransfers example_client normal_flaky_net ''0xb'') = Inr []
   \<and> fst (GetInternalTransactions example_client normal_flaky_net ''0xa'') = Inr []
   \<and> fst (GetTokenTransfers example_client normal_flaky_net ''0xa'') = Inr [transfer_1]
   \<and> AnalyzeBeneficiary example_client normal_flaky_net example_runtime [2, 0, 1, 1] ''0xa''
        (Some [transfer_B], None)
   \<and> AnalyzePayer example_client normal_flaky_net example_runtime [2, 0, 1, 1] ''0xa''
        (Some [], None)"
proof -
  let ?get = "normal_flaky_net (endpoint example_client ''txlist'' ''0xa'')"
  note th = no_records_is_success [where k = 1 and get = ?get and b = no_records_body
      and r = "\<lparr>TransactionResponse.Status = ''0'', Message = ''No transactions found'',
                Result = []\<rparr>"
      and c = example_client and net = normal_flaky_net and rt = example_runtime
      and n = "[]" and i = "[]" and t = "[transfer_1]" and sched = "[2, 0, 1, 1]"
      and ret = "(Some [transfer_B], None)" and ret' = "(Some [], None)"]
  note th' = no_records_is_success [where c = example_client and net = normal_flaky_net
      and address = "''0xb''" and b' = no_records_body
      and r' = "\<lparr>TokenTransferResponse.Status = ''0'', Message = ''No transactions found'',
                 Result = []\<rparr>"]
  have g: "?get 0 = GetError (New ''connection reset by peer'')" "?get 1 = Body no_records_body"
    "\<forall>j<1. \<exists>e. ?get j = GetError e"
    by (simp_all add: normal_flaky_net_def)
  have r: "as_TransactionResponse no_records_body
             = Inr \<lparr>TransactionResponse.Status = ''0'', Message = ''No transactions found'',
                    Result = []\<rparr>"
    "as_TokenTransferResponse no_records_body
             = Inr \<lparr>TokenTransferResponse.Status = ''0'', Message = ''No transactions found'',
                    Result = []\<rparr>"
    by (simp_all add: no_records_body_def)
  have f: "fst (fetchTransactions ?get) = Inr []"
    using th [THEN conjunct1] g r by simp
  have n: "fst (GetNormalTransactions example_client normal_flaky_net ''0xa'') = Inr []"
    using th [THEN conjunct2, THEN conjunct1] f by simp
  have tb: "normal_flaky_net (endpoint example_client ''tokentx'' ''0xb'') 0
              = Body no_records_body"
    by (simp add: normal_flaky_net_def endpoint_def baseURL_def)
  have t': "fst (GetTokenTransfers example_client normal_flaky_net ''0xb'') = Inr []"
    using th' [THEN conjunct2, THEN conjunct2, THEN conjunct2, THEN conjunct1] tb r by simp
  have i: "fst (GetInternalTransactions example_client normal_flaky_net ''0xa'') = Inr []"
    and t: "fst (GetTokenTransfers example_client normal_flaky_net ''0xa'') = Inr [transfer_1]"
    by (simp_all add: normal_flaky_fetches)
  have a: "AnalyzeBeneficiary_aggregate example_runtime ''0xa'' [] [] [transfer_1] [transfer_B]"
    "AnalyzePayer_aggregate example_runtime ''0xa'' [] [] [transfer_1] []"
    by (simp_all add: AnalyzeBeneficiary_aggregate_def AnalyzePayer_aggregate_def
          range_values_def example_transfer_only)
  have s: "AnalyzeBeneficiary example_client normal_flaky_net example_runtime [2, 0, 1, 1] ''0xa''
        (Some [transfer_B], None)"
    "AnalyzePayer example_client normal_flaky_net example_runtime [2, 0, 1, 1] ''0xa''
        (Some [], None)"
    using th [THEN conjunct2, THEN conjunct2, THEN conjunct2, THEN conjunct2] n i t a
    by simp_all
  from g(1,2) f n tb t' i t s show ?thesis by (intro conjI)
qed

text \<open>
  Claim C10. When the three fetches succeed and no record passes the direction filter and
  the error filter, in particular when the three lists are empty, \<^verbatim>\<open>AnalyzeBeneficiary\<close>
  and \<^verbatim>\<open>AnalyzePayer\<close> return, at every schedule, the slice of length zero that is not nil
  (\<open>Some []\<close>) and the nil error (\<open>None\<close>), and nothing else.
\<close>

theorem empty_result_is_success:
  "(fst (GetNormalTransactions c net address) = Inr n
      \<and> fst (GetInternalTransactions c net address) = Inr i
      \<and> fst (GetTokenTransfers c net address) = Inr t
      \<and> (\<forall>tx\<in>set n \<union> set i. \<not> outgoing_tx rt address tx)
      \<and> (\<forall>tr\<in>set t. \<not> outgoing_transfer rt address tr) \<longrightarrow>
      (AnalyzeBeneficiary c net rt sched address ret \<longleftrightarrow> ret = (Some [], None)))
   \<and> (fst (GetNormalTransactions c net address) = Inr n
      \<and> fst (GetInternalTransactions c net address) = Inr i
      \<and> fst (GetTokenTransfers c net address) = Inr t
      \<and> (\<forall>tx\<in>set n \<union> set i. \<not> incoming_tx rt address tx)
      \<and> (\<forall>tr\<in>set t. \<not> incoming_transfer rt address tr) \<longrightarrow>
      (AnalyzePayer c net rt sched address ret \<longleftrightarrow> ret = (Some [], None)))
   \<and> (fst (GetNormalTransactions c net address) = Inr []
      \<and> fst (GetInternalTransactions c net address) = Inr []
      \<and> fst (GetTokenTransfers c net address) = Inr [] \<longrightarrow>
      (AnalyzeBeneficiary c net rt sched address ret \<longleftrightarrow> ret = (Some [], None))
      \<and> (AnalyzePayer c net rt sched address ret \<longleftrightarrow> ret = (Some [], None)))"
proof (intro conjI impI)
  assume h: "fst (GetNormalTransactions c net address) = Inr n
      \<and> fst (GetInternalTransactions c net address) = Inr i
      \<and> fst (GetTokenTransfers c net address) = Inr t
      \<and> (\<forall>tx\<in>set n \<union> set i. \<not> outgoing_tx rt address tx)
      \<and> (\<forall>tr\<in>set t. \<not> outgoing_transfer rt address tr)"
  then have "beneficiary_calls rt address n i t = []"
    by (auto simp: beneficiary_calls_def filter_empty_conv)
  then have "\<And>bs. AnalyzeBeneficiary_aggregate rt address n i t bs \<longleftrightarrow> bs = []"
    by (simp add: AnalyzeBeneficiary_aggregate_def AnalyzeBeneficiary_map_grouped)
  moreover have "AnalyzeBeneficiary c net rt sched address ret \<longleftrightarrow>
           (\<exists>bs. ret = (Some bs, None) \<and> AnalyzeBeneficiary_aggregate rt address n i t bs)"
    using h by (intro analysis_of_fetched(1)) simp_all
  ultimately show "AnalyzeBeneficiary c net rt sched address ret \<longleftrightarrow> ret = (Some [], None)"
    by simp
next
  assume h: "fst (GetNormalTransactions c net address) = Inr n
      \<and> fst (GetInternalTransactions c net address) = Inr i
      \<and> fst (GetTokenTransfers c net address) = Inr t
      \<and> (\<forall>tx\<in>set n \<union> set i. \<not> incoming_tx rt address tx)
      \<and> (\<forall>tr\<in>set t. \<not> incoming_transfer rt address tr)"
  then have "payer_calls rt address n i t = []"
    by (auto simp: payer_calls_def filter_empty_conv)
  then have "\<And>ps. AnalyzePayer_aggregate rt address n i t ps \<longleftrightarrow> ps = []"
    by (simp add: AnalyzePayer_aggregate_def AnalyzePayer_map_grouped)
  moreover have "AnalyzePayer c net rt sched address ret \<longleftrightarrow>
           (\<exists>ps. ret = (Some ps, None) \<and> AnalyzePayer_aggregate rt address n i t ps)"
    using h by (intro analysis_of_fetched(2)) simp_all
  ultimately show "AnalyzePayer c net rt sched address ret \<longleftrightarrow> ret = (Some [], None)"
    by simp
next
  assume h: "fst (GetNormalTransactions c net address) = Inr []
      \<and> fst (GetInternalTransactions c net address) = Inr []
      \<and> fst (GetTokenTransfers c net address) = Inr []"
  have "\<And>bs. AnalyzeBeneficiary_aggregate rt address [] [] [] bs \<longleftrightarrow> bs = []"
    by (simp add: AnalyzeBeneficiary_aggregate_def AnalyzeBeneficiary_map_def)
  moreover have "AnalyzeBeneficiary c net rt sched address ret \<longleftrightarrow>
           (\<exists>bs. ret = (Some bs, None) \<and> AnalyzeBeneficiary_aggregate rt address [] [] [] bs)"
    using h by (intro analysis_of_fetched(1)) simp_all
  ultimately show "AnalyzeBeneficiary c net rt sched address ret \<longleftrightarrow> ret = (Some [], None)"
    by simp
  have "\<And>ps. AnalyzePayer_aggregate rt address [] [] [] ps \<longleftrightarrow> ps = []"
    by (simp add: AnalyzePayer_aggregate_def AnalyzePayer_map_def)
  moreover have "AnalyzePayer c net rt sched address ret \<longleftrightarrow>
           (\<exists>ps. ret = (Some ps, None) \<and> AnalyzePayer_aggregate rt address [] [] [] ps)"
    using h by (intro analysis_of_fetched(2)) simp_all
  ultimately show "AnalyzePayer c net rt sched address ret \<longleftrightarrow> ret = (Some [], None)"
    by simp
qed

text \<open>
  The theorem at the network whose endpoints all answer with the transfer of \<open>0xA\<close> to
  \<open>0xB\<close>, for the address \<open>0xc\<close>, which the records do not name; and at the network
  that has no records, for the address \<open>0xa\<close>.
\<close>

theorem empty_result_is_success_witness:
  "fst (GetNormalTransactions example_client busy_net ''0xc'') = Inr [record_7]
   \<and> fst (GetInternalTransactions example_client busy_net ''0xc'') = Inr [record_7]
   \<and> fst (GetTokenTransfers example_client busy_net ''0xc'') = Inr [transfer_1]
   \<and> \<not> outgoing_tx example_runtime ''0xc'' record_7
   \<and> \<not> outgoing_transfer example_runtime ''0xc'' transfer_1
   \<and> \<not> incoming_tx example_runtime ''0xc'' record_7
   \<and> \<not> incoming_transfer example_runtime ''0xc'' transfer_1
   \<and> AnalyzeBeneficiary example_client busy_net example_runtime [1, 2, 0] ''0xc''
        (Some [], None)
   \<and> AnalyzePayer example_client busy_net example_runtime [1, 2, 0] ''0xc'' (Some [], None)
   \<and> fst (GetNormalTransactions example_client quiet_net ''0xa'') = Inr []
   \<and> fst (GetInternalTransactions example_client quiet_net ''0xa'') = Inr []
   \<and> fst (GetTokenTransfers example_client quiet_net ''0xa'') = Inr []
   \<and> AnalyzeBeneficiary example_client quiet_net example_runtime [] ''0xa'' (Some [], None)
   \<and> AnalyzePayer example_client quiet_net example_runtime [] ''0xa'' (Some [], None)"
proof -
  note th = empty_result_is_success [where c = example_client and net = busy_net
      and address = "''0xc''" and n = "[record_7]" and i = "[record_7]" and t = "[transfer_1]"
      and rt = example_runtime and sched = "[1, 2, 0]" and ret = "(Some [], None)"]
  note th' = empty_result_is_success [where c = example_client and net = quiet_net
      and address = "''0xa''" and rt = example_runtime and sched = "[]"
      and ret = "(Some [], None)"]
  have f: "fst (GetNormalTransactions example_client busy_net ''0xc'') = Inr [record_7]"
    "fst (GetInternalTransactions example_client busy_net ''0xc'') = Inr [record_7]"
    "fst (GetTokenTransfers example_client busy_net ''0xc'') = Inr [transfer_1]"
    by (simp_all add: busy_fetches)
  have d: "\<not> outgoing_tx example_runtime ''0xc'' record_7"
    "\<not> outgoing_transfer example_runtime ''0xc'' transfer_1"
    "\<not> incoming_tx example_runtime ''0xc'' record_7"
    "\<not> incoming_transfer example_runtime ''0xc'' transfer_1"
    by (simp_all add: outgoing_tx_def outgoing_transfer_def incoming_tx_def
          incoming_transfer_def example_records)
  have q: "fst (GetNormalTransactions example_client quiet_net ''0xa'') = Inr []"
    "fst (GetInternalTransactions example_client quiet_net ''0xa'') = Inr []"
    "fst (GetTokenTransfers example_client quiet_net ''0xa'') = Inr []"
    by (simp_all add: quiet_fetches)
  have b: "AnalyzeBeneficiary example_client busy_net example_runtime [1, 2, 0] ''0xc''
        (Some [], None)"
    using th [THEN conjunct1] f d by simp
  have p: "AnalyzePayer example_client busy_net example_runtime [1, 2, 0] ''0xc''
        (Some [], None)"
    using th [THEN conjunct2, THEN conjunct1] f d by simp
  have e: "AnalyzeBeneficiary example_client quiet_net example_runtime [] ''0xa''
        (Some [], None)"
    "AnalyzePayer example_client quiet_net example_runtime [] ''0xa'' (Some [], None)"
    using th' [THEN conjunct2, THEN conjunct2] q by simp_all
  from f d b p q e show ?thesis by (intro conjI)
qed







text \<open>
  Claim C2, at a network whose every endpoint fails in the transport at the first request
  and answers from the second on. The fetches of the normal and of the internal
  transactions request, sleep one second, request again and succeed. The fetch of the
  token transfers makes its one request and returns the transport's error: it has no
  second attempt and no delay.
\<close>

theorem token_transfers_not_retried:
  "GetNormalTransactions example_client flaky_net ''0xa'' = (Inr [], [Request, Sleep 1, Request])
   \<and> GetInternalTransactions example_client flaky_net ''0xa''
       = (Inr [], [Request, Sleep 1, Request])
   \<and> GetTokenTransfers example_client flaky_net ''0xa''
       = (Inl (Wrap ''error fetching token transfers'' (New ''connection reset by peer'')),
          [Request])"
  by (simp only: flaky_fetches)

text \<open>
  Claim C6, at a network where the endpoint of the normal transactions of \<open>0xa\<close> is down,
  the internal endpoint has no records and the token endpoint answers with one transfer.
  The fetch of the normal transactions fails after three attempts. At the schedule
  \<open>[0, 1]\<close> the first goroutine assigns this error to the shared variable \<^verbatim>\<open>err\<close>, the
  second assigns nil to it, and the first then tests the variable, finds nil and returns
  nil: the analysis returns the aggregate of the token transfer and no error. When the
  goroutines run in turn the analysis returns the error and no slice.
\<close>

theorem partial_result_on_fetch_error:
  "fst (GetNormalTransactions example_client normal_down_net ''0xa'')
     = Inl (Wrap ''error fetching transactions after 3 retries'' (New ''connection refused''))
   \<and> AnalyzeBeneficiary example_client normal_down_net example_runtime [0, 1] ''0xa''
        (Some [transfer_B], None)
   \<and> AnalyzePayer example_client normal_down_net example_runtime [0, 1] ''0xa'' (Some [], None)
   \<and> AnalyzeBeneficiary example_client normal_down_net example_runtime [] ''0xa''
        (None, Some (Wrap ''error fetching normal transactions''
                       (Wrap ''error fetching transactions after 3 retries''
                          (New ''connection refused''))))"
  unfolding AnalyzeBeneficiary_def AnalyzePayer_def Let_def down_Wait_interleaved
    down_Wait_in_turn down_fetches
  by (simp add: AnalyzeBeneficiary_aggregate_def AnalyzePayer_aggregate_def range_values_def
        example_transfer_only)

end
